theory Spec2Isabelle
  imports Complex_Main
begin

unbundle bit_operations_syntax

section \<open>Sensor hub: sampling task and upload task of main.py\<close>

text \<open>
  The two tasks of \<^verbatim>\<open>main.py\<close> are embedded as state-passing functions. Sensor
  drivers, the telemetry client and the clock are outside the repository's code: each of
  their calls is an input of the model (a returned value, or a raised exception).
  Sensor values are Python floats in the source; here they are exact reals, so what is
  verified is the branching of the code, not the rounding of \<^verbatim>\<open>temp1 - prev\<close>.
  The lock of \<^verbatim>\<open>DataSet\<close> is not modelled: every function below is one critical
  section, run from the state it is given.
\<close>

subsection \<open>Exceptions, log lines, task outcomes\<close>

datatype exn = UnboundLocalError | Exception string

text \<open>What a Python call hands back where the source uses it as a value.\<close>

datatype pyval = PyNone | PyBool bool

datatype log_entry =
    Info_data "real option" "real option" "real option" "real option" int
  | Error_shtc3 exn
  | Error_lps22hb exn
  | Error_tcs34725 exn
  | Info_LBS_success
  | Info_LBS_fail
  | Info_GNSS_success
  | Info_GNSS_fail
  | Error_can_not_connect_exit
  | Info_upload_result bool
  | Info_upload_LBS_result pyval
  | Info_upload_GNSS_result pyval
  | Error_connect
  | Print exn

text \<open>
  A task run for a bounded number of loop iterations is either still in its loop, has
  returned from its function, or has died from an exception nobody caught.
\<close>

datatype 's task_result = Running 's | Returned 's | Crashed exn 's

subsection \<open>DataSet and SensorDataCollector\<close>

record DataSet =
  temp1 :: "real option"
  humi :: "real option"
  press :: "real option"
  temp2 :: "real option"
  rgb888 :: int

definition DataSet_init :: DataSet where
  "DataSet_init = \<lparr>temp1 = Some 0, humi = Some 0, press = Some 0, temp2 = Some 0, rgb888 = 0\<rparr>"

record SensorDataCollector =
  data_set :: DataSet
  prev_temp1 :: "real option"
  prev_humi :: "real option"
  prev_temp2 :: "real option"
  prev_press :: "real option"
  collector_log :: "log_entry list"
  collector_sleeps :: nat

definition SensorDataCollector_init :: "DataSet \<Rightarrow> SensorDataCollector" where
  "SensorDataCollector_init ds =
     \<lparr>data_set = ds, prev_temp1 = None, prev_humi = None, prev_temp2 = None,
      prev_press = None, collector_log = [], collector_sleeps = 0\<rparr>"

text \<open>The three driver calls of one sampling tick: what each returns, or what it raises.\<close>

record sensor_reads =
  getTempAndHumi :: "exn + real \<times> real"
  getTempAndPressure :: "exn + real \<times> real"
  getRGBValue :: "exn + int"

text \<open>The test \<^verbatim>\<open>prev is None or abs(v - prev) > 1\<close>, written four times in the source.\<close>

definition significant :: "real option \<Rightarrow> real \<Rightarrow> bool" where
  "significant prev v = (case prev of None \<Rightarrow> True | Some p \<Rightarrow> \<bar>v - p\<bar> > 1)"

text \<open>
  Body of the first \<^verbatim>\<open>try\<close>: the driver call is its first statement, so an
  exception leaves before anything is assigned.
\<close>

definition shtc3_block :: "SensorDataCollector \<Rightarrow> exn + real \<times> real \<Rightarrow> exn + SensorDataCollector" where
  "shtc3_block c r =
     (case r of
        Inl e \<Rightarrow> Inl e
      | Inr (t1, h) \<Rightarrow>
          let c1 = (if significant (prev_temp1 c) t1
                    then c\<lparr>data_set := (data_set c)\<lparr>temp1 := Some t1\<rparr>, prev_temp1 := Some t1\<rparr>
                    else c\<lparr>data_set := (data_set c)\<lparr>temp1 := None\<rparr>\<rparr>);
              c2 = (if significant (prev_humi c1) h
                    then c1\<lparr>data_set := (data_set c1)\<lparr>humi := Some h\<rparr>, prev_humi := Some h\<rparr>
                    else c1\<lparr>data_set := (data_set c1)\<lparr>humi := None\<rparr>\<rparr>)
          in Inr c2)"

text \<open>Body of the second \<^verbatim>\<open>try\<close>; the driver returns pressure first, temperature second.\<close>

definition lps22hb_block :: "SensorDataCollector \<Rightarrow> exn + real \<times> real \<Rightarrow> exn + SensorDataCollector" where
  "lps22hb_block c r =
     (case r of
        Inl e \<Rightarrow> Inl e
      | Inr (p, t2) \<Rightarrow>
          let c1 = (if significant (prev_temp2 c) t2
                    then c\<lparr>data_set := (data_set c)\<lparr>temp2 := Some t2\<rparr>, prev_temp2 := Some t2\<rparr>
                    else c\<lparr>data_set := (data_set c)\<lparr>temp2 := None\<rparr>\<rparr>);
              c2 = (if significant (prev_press c1) p
                    then c1\<lparr>data_set := (data_set c1)\<lparr>press := Some p\<rparr>, prev_press := Some p\<rparr>
                    else c1\<lparr>data_set := (data_set c1)\<lparr>press := None\<rparr>\<rparr>)
          in Inr c2)"

definition tcs34725_block :: "SensorDataCollector \<Rightarrow> exn + int \<Rightarrow> exn + SensorDataCollector" where
  "tcs34725_block c r =
     (case r of
        Inl e \<Rightarrow> Inl e
      | Inr v \<Rightarrow> Inr (c\<lparr>data_set := (data_set c)\<lparr>rgb888 := v\<rparr>\<rparr>))"

definition collector_error :: "log_entry \<Rightarrow> SensorDataCollector \<Rightarrow> SensorDataCollector" where
  "collector_error l c = c\<lparr>collector_log := collector_log c @ [l]\<rparr>"

definition dataShow :: "SensorDataCollector \<Rightarrow> SensorDataCollector" where
  "dataShow c =
     c\<lparr>collector_log := collector_log c @
        [Info_data (temp1 (data_set c)) (humi (data_set c)) (press (data_set c))
           (temp2 (data_set c)) (rgb888 (data_set c))]\<rparr>"

text \<open>
  \<^verbatim>\<open>getSensorData\<close>: three \<^verbatim>\<open>try\<close>/\<^verbatim>\<open>except Exception\<close> statements in a row, each
  handler logging and going on from the state the block left, then \<^verbatim>\<open>dataShow\<close>.
\<close>

definition getSensorData :: "SensorDataCollector \<Rightarrow> sensor_reads \<Rightarrow> SensorDataCollector" where
  "getSensorData c r =
     (let c1 = (case shtc3_block c (getTempAndHumi r) of
                  Inr c' \<Rightarrow> c' | Inl e \<Rightarrow> collector_error (Error_shtc3 e) c);
          c2 = (case lps22hb_block c1 (getTempAndPressure r) of
                  Inr c' \<Rightarrow> c' | Inl e \<Rightarrow> collector_error (Error_lps22hb e) c1);
          c3 = (case tcs34725_block c2 (getRGBValue r) of
                  Inr c' \<Rightarrow> c' | Inl e \<Rightarrow> collector_error (Error_tcs34725 e) c2)
      in dataShow c3)"

text \<open>
  \<^verbatim>\<open>SensorDataCollector.__call__\<close>: \<^verbatim>\<open>while True: getSensorData(); sleep(1)\<close>. The
  list holds the driver results of the ticks to run; the loop has no exit of its own.
\<close>

fun collector_call :: "SensorDataCollector \<Rightarrow> sensor_reads list \<Rightarrow> SensorDataCollector task_result" where
  "collector_call c [] = Running c"
| "collector_call c (r # rs) =
     collector_call ((getSensorData c r)\<lparr>collector_sleeps := Suc (collector_sleeps (getSensorData c r))\<rparr>) rs"

text \<open>
  The filter as section 4.1 of the specification words it: from the remembered value and
  the new sample to the pair (report, new remembered value).
\<close>

definition ChangeFilter_spec :: "real option \<Rightarrow> real \<Rightarrow> bool \<times> real" where
  "ChangeFilter_spec prev v =
     (case prev of
        None \<Rightarrow> (True, v)
      | Some p \<Rightarrow> if \<bar>v - p\<bar> > 1 then (True, v) else (False, p))"

text \<open>What a reported / not reported sample leaves in the field of the shared set.\<close>

definition reported_field :: "bool \<times> real \<Rightarrow> real \<Rightarrow> real option" where
  "reported_field fr v = (if fst fr then Some v else None)"

subsection \<open>The telemetry client, the clock and SensorDataUploader\<close>

text \<open>
  A payload is the dictionary handed to \<^verbatim>\<open>sendTsl\<close>: numeric identifiers to a number,
  or to the nested dictionary of the three colour channels.
\<close>

datatype tsl_value = Num real | Nested "(nat \<times> int) list"

type_synonym payload = "nat \<rightharpoonup> tsl_value"

text \<open>
  The client and the clock are not code of the repository. Their behaviour is an input:
  the answer to the n-th call of each operation (n from 0), which may be a raised
  exception, and the reading of the n-th call of \<^verbatim>\<open>utime.ticks_ms\<close>.
\<close>

record environment =
  qth_start :: "exn option"
  qth_isStatusOk :: "nat \<Rightarrow> exn + bool"
  qth_sendLbs :: "nat \<Rightarrow> exn + bool"
  qth_sendGnss :: "nat \<Rightarrow> exn + bool"
  qth_sendTsl :: "nat \<Rightarrow> exn + bool"
  ticks_ms :: "nat \<Rightarrow> int"

text \<open>
  The upload task's state: its local variable \<^verbatim>\<open>data\<close> (\<open>None\<close> while unbound; a
  local of \<^verbatim>\<open>__call__\<close>, so it lives across iterations of the loop), and a trace of
  what the task has done: calls made per client operation, the arguments of every
  \<^verbatim>\<open>sendTsl\<close> call, clock reads, calls of \<^verbatim>\<open>utime.sleep(1)\<close>, log lines.
\<close>

record SensorDataUploader =
  data :: "payload option"
  status_calls :: nat
  lbs_calls :: nat
  gnss_calls :: nat
  tsl_sent :: "(nat \<times> payload) list"
  clock_reads :: nat
  uploader_sleeps :: nat
  uploader_log :: "log_entry list"

definition SensorDataUploader_init :: SensorDataUploader where
  "SensorDataUploader_init =
     \<lparr>data = None, status_calls = 0, lbs_calls = 0, gnss_calls = 0, tsl_sent = [],
      clock_reads = 0, uploader_sleeps = 0, uploader_log = []\<rparr>"

definition uploader_info :: "log_entry \<Rightarrow> SensorDataUploader \<Rightarrow> SensorDataUploader" where
  "uploader_info l u = u\<lparr>uploader_log := uploader_log u @ [l]\<rparr>"

definition sleep1 :: "SensorDataUploader \<Rightarrow> SensorDataUploader" where
  "sleep1 u = u\<lparr>uploader_sleeps := Suc (uploader_sleeps u)\<rparr>"

text \<open>
  \<^verbatim>\<open>sendLbs\<close>: \<^verbatim>\<open>for i in range(10)\<close> with \<^verbatim>\<open>break\<close> on a truthy answer, a sleep
  after every other answer, and an \<^verbatim>\<open>else\<close> that logs the failure. The first argument
  is the number of iterations left. The function has no \<^verbatim>\<open>return\<close> statement: its
  value is \<^verbatim>\<open>None\<close> on both ways out. An exception of the client passes through.
\<close>

fun sendLbs_loop :: "nat \<Rightarrow> environment \<Rightarrow> SensorDataUploader \<Rightarrow> (exn + pyval) \<times> SensorDataUploader" where
  "sendLbs_loop 0 env u = (Inr PyNone, uploader_info Info_LBS_fail u)"
| "sendLbs_loop (Suc i) env u =
     (let u1 = u\<lparr>lbs_calls := Suc (lbs_calls u)\<rparr>
      in case qth_sendLbs env (lbs_calls u) of
           Inl e \<Rightarrow> (Inl e, u1)
         | Inr ok \<Rightarrow>
             if ok then (Inr PyNone, uploader_info Info_LBS_success u1)
             else sendLbs_loop i env (sleep1 u1))"

definition sendLbs :: "environment \<Rightarrow> SensorDataUploader \<Rightarrow> (exn + pyval) \<times> SensorDataUploader" where
  "sendLbs env u = sendLbs_loop 10 env u"

fun sendGnss_loop :: "nat \<Rightarrow> environment \<Rightarrow> SensorDataUploader \<Rightarrow> (exn + pyval) \<times> SensorDataUploader" where
  "sendGnss_loop 0 env u = (Inr PyNone, uploader_info Info_GNSS_fail u)"
| "sendGnss_loop (Suc i) env u =
     (let u1 = u\<lparr>gnss_calls := Suc (gnss_calls u)\<rparr>
      in case qth_sendGnss env (gnss_calls u) of
           Inl e \<Rightarrow> (Inl e, u1)
         | Inr ok \<Rightarrow>
             if ok then (Inr PyNone, uploader_info Info_GNSS_success u1)
             else sendGnss_loop i env (sleep1 u1))"

definition sendGnss :: "environment \<Rightarrow> SensorDataUploader \<Rightarrow> (exn + pyval) \<times> SensorDataUploader" where
  "sendGnss env u = sendGnss_loop 10 env u"

text \<open>
  The handshake loop of \<^verbatim>\<open>__call__\<close>, \<^verbatim>\<open>for _ in range(30)\<close>: \<open>Inr True\<close> when it
  left by \<^verbatim>\<open>break\<close>, \<open>Inr False\<close> when it ran out and its \<^verbatim>\<open>else\<close> is taken.
\<close>

fun wait_status :: "nat \<Rightarrow> environment \<Rightarrow> SensorDataUploader \<Rightarrow> (exn + bool) \<times> SensorDataUploader" where
  "wait_status 0 env u = (Inr False, u)"
| "wait_status (Suc i) env u =
     (let u1 = u\<lparr>status_calls := Suc (status_calls u)\<rparr>
      in case qth_isStatusOk env (status_calls u) of
           Inl e \<Rightarrow> (Inl e, u1)
         | Inr ok \<Rightarrow> if ok then (Inr True, u1) else wait_status i env (sleep1 u1))"

text \<open>The dictionary built in the 5-second branch.\<close>

definition rgb_payload :: "DataSet \<Rightarrow> payload" where
  "rgb_payload ds =
     [7 \<mapsto> Nested [(1, (drop_bit 16 (rgb888 ds)) AND 255),
                   (2, (drop_bit 8 (rgb888 ds)) AND 255),
                   (3, rgb888 ds AND 255)]]"

text \<open>
  \<^verbatim>\<open>if field is not None: data.update({k: field})\<close>. Reading \<^verbatim>\<open>data\<close> while it is
  unbound raises.
\<close>

definition dict_update :: "nat \<Rightarrow> real option \<Rightarrow> payload option \<Rightarrow> exn + payload option" where
  "dict_update k field d =
     (case field of
        None \<Rightarrow> Inr d
      | Some v \<Rightarrow> (case d of None \<Rightarrow> Inl UnboundLocalError | Some m \<Rightarrow> Inr (Some (m(k \<mapsto> Num v)))))"

definition and_then :: "exn + 'a \<Rightarrow> ('a \<Rightarrow> exn + 'b) \<Rightarrow> exn + 'b" where
  "and_then r f = (case r of Inl e \<Rightarrow> Inl e | Inr x \<Rightarrow> f x)"

text \<open>The four updates of the 1-second branch, in the order of the source.\<close>

definition metric_updates :: "DataSet \<Rightarrow> payload option \<Rightarrow> exn + payload option" where
  "metric_updates ds d =
     and_then (dict_update 3 (temp1 ds) d) (\<lambda>d1.
     and_then (dict_update 4 (humi ds) d1) (\<lambda>d2.
     and_then (dict_update 5 (temp2 ds) d2) (\<lambda>d3.
     dict_update 6 (press ds) d3)))"

text \<open>
  The two location reports at the end of a tick. The value of \<^verbatim>\<open>sendLbs()\<close> is
  formatted into the log line.
\<close>

definition report_lbs :: "environment \<Rightarrow> int \<Rightarrow> SensorDataUploader \<Rightarrow> exn option \<times> SensorDataUploader" where
  "report_lbs env timestamp u =
     (if timestamp mod 1800 = 0
      then (case sendLbs env u of
              (Inl e, u') \<Rightarrow> (Some e, u')
            | (Inr result, u') \<Rightarrow> (None, uploader_info (Info_upload_LBS_result result) u'))
      else (None, u))"

definition report_gnss :: "environment \<Rightarrow> int \<Rightarrow> SensorDataUploader \<Rightarrow> exn option \<times> SensorDataUploader" where
  "report_gnss env timestamp u =
     (if timestamp mod 60 = 0
      then (case sendGnss env u of
              (Inl e, u') \<Rightarrow> (Some e, u')
            | (Inr result, u') \<Rightarrow> (None, uploader_info (Info_upload_GNSS_result result) u'))
      else (None, u))"

text \<open>
  The body of the \<^verbatim>\<open>try\<close> in the steady-state loop, lines 137 to 169, on the snapshot
  \<open>ds\<close> of the shared set. The result is the exception that left the body, if any,
  with the state at that moment: what was assigned or sent before stays so.
\<close>

definition tick_body :: "environment \<Rightarrow> DataSet \<Rightarrow> SensorDataUploader \<Rightarrow> exn option \<times> SensorDataUploader" where
  "tick_body env ds u =
     (let u0 = u\<lparr>status_calls := Suc (status_calls u)\<rparr>
      in case qth_isStatusOk env (status_calls u) of
           Inl e \<Rightarrow> (Some e, u0)
         | Inr ok \<Rightarrow>
             if ok then
               (let timestamp = ticks_ms env (clock_reads u0) div 1000;
                    u1 = u0\<lparr>clock_reads := Suc (clock_reads u0)\<rparr>;
                    u2 = (if timestamp mod 5 = 0 then u1\<lparr>data := Some (rgb_payload ds)\<rparr> else u1)
                in case (if timestamp mod 1 = 0 then metric_updates ds (data u2) else Inr (data u2)) of
                     Inl e \<Rightarrow> (Some e, u2)
                   | Inr d \<Rightarrow>
                       (let u3 = u2\<lparr>data := d\<rparr>
                        in case d of
                             None \<Rightarrow> (Some UnboundLocalError, u3)
                           | Some m \<Rightarrow>
                               (let u4 = u3\<lparr>tsl_sent := tsl_sent u3 @ [(1, m)]\<rparr>
                                in case qth_sendTsl env (length (tsl_sent u3)) of
                                     Inl e \<Rightarrow> (Some e, u4)
                                   | Inr result \<Rightarrow>
                                       (case report_lbs env timestamp (uploader_info (Info_upload_result result) u4) of
                                          (Some e, u5) \<Rightarrow> (Some e, u5)
                                        | (None, u5) \<Rightarrow> report_gnss env timestamp u5))))
             else (None, uploader_info Error_connect u0))"

text \<open>The \<^verbatim>\<open>try\<close> with its handler \<^verbatim>\<open>except Exception as e: print(e)\<close>.\<close>

definition tick :: "environment \<Rightarrow> DataSet \<Rightarrow> SensorDataUploader \<Rightarrow> SensorDataUploader" where
  "tick env ds u =
     (case tick_body env ds u of
        (None, u') \<Rightarrow> u'
      | (Some e, u') \<Rightarrow> uploader_info (Print e) u')"

text \<open>
  The steady-state loop \<^verbatim>\<open>while True\<close>: one iteration for each snapshot of the shared
  set in the list, each followed by \<^verbatim>\<open>utime.sleep(1)\<close>.
\<close>

fun steady_loop :: "environment \<Rightarrow> SensorDataUploader \<Rightarrow> DataSet list \<Rightarrow> SensorDataUploader task_result" where
  "steady_loop env u [] = Running u"
| "steady_loop env u (ds # dss) = steady_loop env (sleep1 (tick env ds u)) dss"

text \<open>
  \<^verbatim>\<open>SensorDataUploader.__call__\<close>: start the client, handshake, the two first location
  reports, the steady-state loop. Nothing before the loop is inside a \<^verbatim>\<open>try\<close>.
\<close>

definition uploader_call :: "environment \<Rightarrow> SensorDataUploader \<Rightarrow> DataSet list \<Rightarrow> SensorDataUploader task_result" where
  "uploader_call env u dss =
     (case qth_start env of
        Some e \<Rightarrow> Crashed e u
      | None \<Rightarrow>
          (case wait_status 30 env u of
             (Inl e, u1) \<Rightarrow> Crashed e u1
           | (Inr ready, u1) \<Rightarrow>
               if ready then
                 (case sendLbs env u1 of
                    (Inl e, u2) \<Rightarrow> Crashed e u2
                  | (Inr r1, u2) \<Rightarrow>
                      (case sendGnss env u2 of
                         (Inl e, u3) \<Rightarrow> Crashed e u3
                       | (Inr r2, u3) \<Rightarrow> steady_loop env u3 dss))
               else Returned (uploader_info Error_can_not_connect_exit u1)))"

subsection \<open>Projections and inputs used in the statements\<close>

definition example_collector :: SensorDataCollector where
  "example_collector = (SensorDataCollector_init DataSet_init)\<lparr>prev_temp1 := Some 20, prev_press := Some 1000\<rparr>"

definition example_reads :: sensor_reads where
  "example_reads = \<lparr>getTempAndHumi = Inr (21, 50), getTempAndPressure = Inr (1001.5, 25), getRGBValue = Inr 0x112233\<rparr>"

definition shtc3_fault_reads :: sensor_reads where
  "shtc3_fault_reads = \<lparr>getTempAndHumi = Inl (Exception ''i2c''), getTempAndPressure = Inr (1001.5, 25), getRGBValue = Inr 0x112233\<rparr>"

definition shtc3_fields :: "SensorDataCollector \<Rightarrow> real option \<times> real option \<times> real option \<times> real option" where
  "shtc3_fields c = (temp1 (data_set c), humi (data_set c), prev_temp1 c, prev_humi c)"

definition lps22hb_fields :: "SensorDataCollector \<Rightarrow> real option \<times> real option \<times> real option \<times> real option" where
  "lps22hb_fields c = (temp2 (data_set c), press (data_set c), prev_temp2 c, prev_press c)"

definition field_follows_memo :: "real option \<Rightarrow> real option \<Rightarrow> bool" where
  "field_follows_memo field memo = (field = None \<or> field = memo)"

text \<open>
  What one conditional \<^verbatim>\<open>data.update\<close> does to a dictionary that is bound, and the
  truncated timestamp \<^verbatim>\<open>utime.ticks_ms() // 1000\<close> a tick starting in state \<open>u\<close> reads.
\<close>

definition put_metric :: "nat \<Rightarrow> real option \<Rightarrow> payload \<Rightarrow> payload" where
  "put_metric k field m = (case field of None \<Rightarrow> m | Some v \<Rightarrow> m(k \<mapsto> Num v))"

abbreviation timestamp_of :: "environment \<Rightarrow> SensorDataUploader \<Rightarrow> int" where
  "timestamp_of env u \<equiv> ticks_ms env (clock_reads u) div 1000"

text \<open>
  The dictionary a tick hands to \<^verbatim>\<open>sendTsl\<close> when it gets that far: the fresh colour
  dictionary on a multiple of 5, else the dictionary \<^verbatim>\<open>data\<close> is still bound to from an
  earlier iteration, with the four conditional updates on top. With \<^verbatim>\<open>data\<close> unbound
  and the timestamp not a multiple of 5 the tick never gets to \<^verbatim>\<open>sendTsl\<close>, and the
  empty map written here is not used.
\<close>

definition assembled :: "environment \<Rightarrow> DataSet \<Rightarrow> SensorDataUploader \<Rightarrow> payload" where
  "assembled env ds u =
     put_metric 6 (press ds) (put_metric 5 (temp2 ds) (put_metric 4 (humi ds) (put_metric 3 (temp1 ds)
       (if timestamp_of env u mod 5 = 0 then rgb_payload ds
        else (case data u of Some m \<Rightarrow> m | None \<Rightarrow> Map.empty)))))"

text \<open>
  Environments and snapshots for the concrete runs. In \<open>env_online\<close> the clock's n-th
  reading is n seconds and a quarter, so a tick from \<open>uploader_at n\<close> has timestamp n;
  the coarse-location call always fails and the satellite-location call succeeds at its
  third attempt.
\<close>

definition env_online :: environment where
  "env_online =
     \<lparr>qth_start = None, qth_isStatusOk = (\<lambda>n. Inr True), qth_sendLbs = (\<lambda>n. Inr False),
      qth_sendGnss = (\<lambda>n. Inr (n = 2)), qth_sendTsl = (\<lambda>n. Inr True),
      ticks_ms = (\<lambda>n. 1000 * int n + 250)\<rparr>"

definition env_slow_start :: environment where
  "env_slow_start = env_online\<lparr>qth_isStatusOk := (\<lambda>n. Inr (29 \<le> n))\<rparr>"

definition env_offline :: environment where
  "env_offline = env_online\<lparr>qth_isStatusOk := (\<lambda>n. Inr False)\<rparr>"

definition env_tsl_raises :: environment where
  "env_tsl_raises = env_online\<lparr>qth_sendTsl := (\<lambda>n. Inl (Exception ''ECONNRESET''))\<rparr>"


definition ds_tick5 :: DataSet where
  "ds_tick5 = \<lparr>temp1 = Some 20, humi = None, press = None, temp2 = None, rgb888 = 0x112233\<rparr>"

definition ds_tick6 :: DataSet where
  "ds_tick6 = \<lparr>temp1 = None, humi = None, press = None, temp2 = None, rgb888 = 0x445566\<rparr>"

definition uploader_at :: "nat \<Rightarrow> SensorDataUploader" where
  "uploader_at n = SensorDataUploader_init\<lparr>clock_reads := n\<rparr>"

definition run_5_6 :: SensorDataUploader where
  "run_5_6 = tick env_online ds_tick6 (sleep1 (tick env_online ds_tick5 (uploader_at 5)))"

text \<open>The two location reports of a tick, as \<open>tick_body\<close> runs them after the telemetry call.\<close>

definition report_locations :: "environment \<Rightarrow> int \<Rightarrow> SensorDataUploader \<Rightarrow> exn option \<times> SensorDataUploader" where
  "report_locations env ts u =
     (case report_lbs env ts u of
        (Some e, u5) \<Rightarrow> (Some e, u5)
      | (None, u5) \<Rightarrow> report_gnss env ts u5)"

subsection \<open>The sampling task: what a tick leaves in each field\<close>

lemmas collector_defs = getSensorData_def shtc3_block_def lps22hb_block_def tcs34725_block_def
  collector_error_def dataShow_def

lemma gsd_temp1: "temp1 (data_set (getSensorData c r)) =
   (case getTempAndHumi r of Inl e \<Rightarrow> temp1 (data_set c)
    | Inr (t1, h) \<Rightarrow> if significant (prev_temp1 c) t1 then Some t1 else None)"
  by (cases "getTempAndHumi r"; cases "getTempAndPressure r"; cases "getRGBValue r")
    (auto simp: collector_defs Let_def split: prod.splits)

lemma gsd_prev_temp1: "prev_temp1 (getSensorData c r) =
   (case getTempAndHumi r of Inl e \<Rightarrow> prev_temp1 c
    | Inr (t1, h) \<Rightarrow> if significant (prev_temp1 c) t1 then Some t1 else prev_temp1 c)"
  by (cases "getTempAndHumi r"; cases "getTempAndPressure r"; cases "getRGBValue r")
    (auto simp: collector_defs Let_def split: prod.splits)

lemma gsd_humi: "humi (data_set (getSensorData c r)) =
   (case getTempAndHumi r of Inl e \<Rightarrow> humi (data_set c)
    | Inr (t1, h) \<Rightarrow> if significant (prev_humi c) h then Some h else None)"
  by (cases "getTempAndHumi r"; cases "getTempAndPressure r"; cases "getRGBValue r")
    (auto simp: collector_defs Let_def split: prod.splits)

lemma gsd_prev_humi: "prev_humi (getSensorData c r) =
   (case getTempAndHumi r of Inl e \<Rightarrow> prev_humi c
    | Inr (t1, h) \<Rightarrow> if significant (prev_humi c) h then Some h else prev_humi c)"
  by (cases "getTempAndHumi r"; cases "getTempAndPressure r"; cases "getRGBValue r")
    (auto simp: collector_defs Let_def split: prod.splits)

lemma gsd_temp2: "temp2 (data_set (getSensorData c r)) =
   (case getTempAndPressure r of Inl e \<Rightarrow> temp2 (data_set c)
    | Inr (p, t2) \<Rightarrow> if significant (prev_temp2 c) t2 then Some t2 else None)"
  by (cases "getTempAndHumi r"; cases "getTempAndPressure r"; cases "getRGBValue r")
    (auto simp: collector_defs Let_def split: prod.splits)

lemma gsd_prev_temp2: "prev_temp2 (getSensorData c r) =
   (case getTempAndPressure r of Inl e \<Rightarrow> prev_temp2 c
    | Inr (p, t2) \<Rightarrow> if significant (prev_temp2 c) t2 then Some t2 else prev_temp2 c)"
  by (cases "getTempAndHumi r"; cases "getTempAndPressure r"; cases "getRGBValue r")
    (auto simp: collector_defs Let_def split: prod.splits)

lemma gsd_press: "press (data_set (getSensorData c r)) =
   (case getTempAndPressure r of Inl e \<Rightarrow> press (data_set c)
    | Inr (p, t2) \<Rightarrow> if significant (prev_press c) p then Some p else None)"
  by (cases "getTempAndHumi r"; cases "getTempAndPressure r"; cases "getRGBValue r")
    (auto simp: collector_defs Let_def split: prod.splits)

lemma gsd_prev_press: "prev_press (getSensorData c r) =
   (case getTempAndPressure r of Inl e \<Rightarrow> prev_press c
    | Inr (p, t2) \<Rightarrow> if significant (prev_press c) p then Some p else prev_press c)"
  by (cases "getTempAndHumi r"; cases "getTempAndPressure r"; cases "getRGBValue r")
    (auto simp: collector_defs Let_def split: prod.splits)

lemma gsd_rgb888: "rgb888 (data_set (getSensorData c r)) =
   (case getRGBValue r of Inl e \<Rightarrow> rgb888 (data_set c) | Inr v \<Rightarrow> v)"
  by (cases "getTempAndHumi r"; cases "getTempAndPressure r"; cases "getRGBValue r")
    (auto simp: collector_defs Let_def split: prod.splits)

lemma gsd_sleeps: "collector_sleeps (getSensorData c r) = collector_sleeps c"
  by (cases "getTempAndHumi r"; cases "getTempAndPressure r"; cases "getRGBValue r")
    (auto simp: collector_defs Let_def split: prod.splits)

lemma gsd_log_shtc3: "getTempAndHumi r = Inl e \<Longrightarrow> Error_shtc3 e \<in> set (collector_log (getSensorData c r))"
  by (cases "getTempAndHumi r"; cases "getTempAndPressure r"; cases "getRGBValue r")
    (auto simp: collector_defs Let_def split: prod.splits)

lemma gsd_log_lps22hb: "getTempAndPressure r = Inl e \<Longrightarrow> Error_lps22hb e \<in> set (collector_log (getSensorData c r))"
  by (cases "getTempAndHumi r"; cases "getTempAndPressure r"; cases "getRGBValue r")
    (auto simp: collector_defs Let_def split: prod.splits)

lemma gsd_log_tcs34725: "getRGBValue r = Inl e \<Longrightarrow> Error_tcs34725 e \<in> set (collector_log (getSensorData c r))"
  by (cases "getTempAndHumi r"; cases "getTempAndPressure r"; cases "getRGBValue r")
    (auto simp: collector_defs Let_def split: prod.splits)

lemmas gsd_fields = gsd_temp1 gsd_prev_temp1 gsd_humi gsd_prev_humi gsd_temp2 gsd_prev_temp2
  gsd_press gsd_prev_press gsd_rgb888

lemma filter_field: "reported_field (ChangeFilter_spec prev v) v = (if significant prev v then Some v else None)"
  by (simp add: reported_field_def ChangeFilter_spec_def significant_def split: option.splits)

lemma filter_memo: "Some (snd (ChangeFilter_spec prev v)) = (if significant prev v then Some v else prev)"
  by (simp add: ChangeFilter_spec_def significant_def split: option.splits)

text \<open>
  Claim C1. For each of temp1, humidity, temp2 and pressure, a tick whose driver call
  returned the sample \<open>v\<close> leaves in the shared set and in the memo what the change
  filter of the specification gives for that metric's own memo and sample: with the memo
  unset, or with \<open>\<bar>v - prev\<bar> > 1\<close>, the field holds \<open>v\<close> and the memo becomes \<open>v\<close>;
  otherwise, and so at \<open>\<bar>v - prev\<bar> = 1\<close> exactly, the field holds the no-change marker
  \<open>None\<close> and the memo stays.
\<close>

theorem C1_change_filter:
  "(getTempAndHumi r = Inr (t1, h) \<longrightarrow>
      temp1 (data_set (getSensorData c r)) = reported_field (ChangeFilter_spec (prev_temp1 c) t1) t1 \<and>
      prev_temp1 (getSensorData c r) = Some (snd (ChangeFilter_spec (prev_temp1 c) t1)) \<and>
      humi (data_set (getSensorData c r)) = reported_field (ChangeFilter_spec (prev_humi c) h) h \<and>
      prev_humi (getSensorData c r) = Some (snd (ChangeFilter_spec (prev_humi c) h))) \<and>
   (getTempAndPressure r = Inr (p, t2) \<longrightarrow>
      temp2 (data_set (getSensorData c r)) = reported_field (ChangeFilter_spec (prev_temp2 c) t2) t2 \<and>
      prev_temp2 (getSensorData c r) = Some (snd (ChangeFilter_spec (prev_temp2 c) t2)) \<and>
      press (data_set (getSensorData c r)) = reported_field (ChangeFilter_spec (prev_press c) p) p \<and>
      prev_press (getSensorData c r) = Some (snd (ChangeFilter_spec (prev_press c) p))) \<and>
   ChangeFilter_spec None v = (True, v) \<and>
   (\<bar>v - q\<bar> > 1 \<longrightarrow> ChangeFilter_spec (Some q) v = (True, v)) \<and>
   (\<bar>v - q\<bar> \<le> 1 \<longrightarrow> ChangeFilter_spec (Some q) v = (False, q)) \<and>
   (\<bar>v - q\<bar> = 1 \<longrightarrow> ChangeFilter_spec (Some q) v = (False, q))"
  by (simp add: gsd_fields filter_field filter_memo) (simp add: ChangeFilter_spec_def)

theorem C1_change_filter_witness:
  "getTempAndHumi example_reads = Inr (21, 50) \<and>
   getTempAndPressure example_reads = Inr (1001.5, 25) \<and>
   temp1 (data_set (getSensorData example_collector example_reads)) = None \<and>
   prev_temp1 (getSensorData example_collector example_reads) = Some 20 \<and>
   humi (data_set (getSensorData example_collector example_reads)) = Some 50 \<and>
   prev_humi (getSensorData example_collector example_reads) = Some 50 \<and>
   temp2 (data_set (getSensorData example_collector example_reads)) = Some 25 \<and>
   press (data_set (getSensorData example_collector example_reads)) = Some 1001.5 \<and>
   prev_press (getSensorData example_collector example_reads) = Some 1001.5 \<and>
   \<bar>21 - 20 :: real\<bar> = 1 \<and> ChangeFilter_spec (Some 20) 21 = (False, 20) \<and>
   \<bar>22 - 20 :: real\<bar> > 1 \<and> ChangeFilter_spec (Some 20) 22 = (True, 22)"
  using C1_change_filter [where r = example_reads and c = example_collector and ?t1.0 = 21
      and h = 50 and p = "1001.5" and ?t2.0 = 25 and v = 21 and q = 20]
    C1_change_filter [where r = example_reads and c = example_collector and ?t1.0 = 21
      and h = 50 and p = "1001.5" and ?t2.0 = 25 and v = 22 and q = 20]
  by (simp add: example_reads_def example_collector_def SensorDataCollector_init_def
      DataSet_init_def ChangeFilter_spec_def reported_field_def)

lemma collector_call_running:
  "\<exists>c'. collector_call c rs = Running c' \<and> collector_sleeps c' = collector_sleeps c + length rs"
proof (induction rs arbitrary: c)
  case Nil
  show ?case by simp
next
  case (Cons r rs)
  let ?c1 = "(getSensorData c r)\<lparr>collector_sleeps := Suc (collector_sleeps (getSensorData c r))\<rparr>"
  from Cons.IH [of ?c1] obtain c' where
    "collector_call ?c1 rs = Running c'" "collector_sleeps c' = collector_sleeps ?c1 + length rs"
    by blast
  then show ?case by (simp add: gsd_sleeps)
qed

text \<open>
  Claim C6. When one driver call raises, the error is logged and the fields and memos of
  that sensor are what they were before the tick; what a tick leaves in the fields and
  memos of a sensor depends on that sensor's own driver call only, whatever the other two
  calls did; and the sampling loop never leaves: it runs a tick and a sleep for every
  element of any list of driver results.
\<close>

theorem C6_fault_isolation:
  "(getTempAndHumi r = Inl e \<longrightarrow>
      shtc3_fields (getSensorData c r) = shtc3_fields c \<and>
      Error_shtc3 e \<in> set (collector_log (getSensorData c r))) \<and>
   (getTempAndPressure r = Inl e \<longrightarrow>
      lps22hb_fields (getSensorData c r) = lps22hb_fields c \<and>
      Error_lps22hb e \<in> set (collector_log (getSensorData c r))) \<and>
   (getRGBValue r = Inl e \<longrightarrow>
      rgb888 (data_set (getSensorData c r)) = rgb888 (data_set c) \<and>
      Error_tcs34725 e \<in> set (collector_log (getSensorData c r))) \<and>
   (getTempAndHumi r' = getTempAndHumi r \<longrightarrow>
      shtc3_fields (getSensorData c r') = shtc3_fields (getSensorData c r)) \<and>
   (getTempAndPressure r' = getTempAndPressure r \<longrightarrow>
      lps22hb_fields (getSensorData c r') = lps22hb_fields (getSensorData c r)) \<and>
   (getRGBValue r' = getRGBValue r \<longrightarrow>
      rgb888 (data_set (getSensorData c r')) = rgb888 (data_set (getSensorData c r))) \<and>
   (\<exists>c'. collector_call c rs = Running c' \<and> collector_sleeps c' = collector_sleeps c + length rs)"
  using collector_call_running [of c rs]
  by (simp add: shtc3_fields_def lps22hb_fields_def gsd_fields gsd_log_shtc3 gsd_log_lps22hb
      gsd_log_tcs34725)

theorem C6_fault_isolation_witness:
  "getTempAndHumi shtc3_fault_reads = Inl (Exception ''i2c'') \<and>
   getTempAndPressure shtc3_fault_reads = getTempAndPressure example_reads \<and>
   getRGBValue shtc3_fault_reads = getRGBValue example_reads \<and>
   shtc3_fields (getSensorData example_collector shtc3_fault_reads) = (Some 0, Some 0, Some 20, None) \<and>
   Error_shtc3 (Exception ''i2c'') \<in> set (collector_log (getSensorData example_collector shtc3_fault_reads)) \<and>
   lps22hb_fields (getSensorData example_collector shtc3_fault_reads) = (Some 25, Some 1001.5, Some 25, Some 1001.5) \<and>
   rgb888 (data_set (getSensorData example_collector shtc3_fault_reads)) = 0x112233 \<and>
   (\<exists>c'. collector_call example_collector [shtc3_fault_reads, shtc3_fault_reads] = Running c' \<and>
         collector_sleeps c' = 2)"
  using C6_fault_isolation [where r = shtc3_fault_reads and r' = example_reads
      and e = "Exception ''i2c''" and c = example_collector
      and rs = "[shtc3_fault_reads, shtc3_fault_reads]"]
  by (simp add: shtc3_fault_reads_def example_reads_def example_collector_def
      SensorDataCollector_init_def DataSet_init_def shtc3_fields_def lps22hb_fields_def
      gsd_fields significant_def)

text \<open>
  Claim C10 as stated fails at start-up: the fields of the shared set start at 0 and the
  memos unset, so after a first tick in which the SHTC3 call raises, temp1 is 0, neither
  the no-change marker nor the memo.
\<close>

theorem C10_counterexample:
  "\<not> (temp1 (data_set (getSensorData (SensorDataCollector_init DataSet_init) shtc3_fault_reads)) = None \<or>
      temp1 (data_set (getSensorData (SensorDataCollector_init DataSet_init) shtc3_fault_reads)) =
        prev_temp1 (getSensorData (SensorDataCollector_init DataSet_init) shtc3_fault_reads))"
  by (simp add: gsd_fields shtc3_fault_reads_def SensorDataCollector_init_def DataSet_init_def)

text \<open>
  Claim C10, amended. For each filtered metric: after a tick whose driver call returned,
  the field is the no-change marker or equal to the memo; a tick whose driver call raised
  keeps the property if it held before the tick; and a memo that is set is set after the
  tick.
\<close>

theorem C10_field_follows_memo:
  "(getTempAndHumi r = Inr (t1, h) \<or> field_follows_memo (temp1 (data_set c)) (prev_temp1 c) \<longrightarrow>
      field_follows_memo (temp1 (data_set (getSensorData c r))) (prev_temp1 (getSensorData c r))) \<and>
   (getTempAndHumi r = Inr (t1, h) \<or> field_follows_memo (humi (data_set c)) (prev_humi c) \<longrightarrow>
      field_follows_memo (humi (data_set (getSensorData c r))) (prev_humi (getSensorData c r))) \<and>
   (getTempAndPressure r = Inr (p, t2) \<or> field_follows_memo (temp2 (data_set c)) (prev_temp2 c) \<longrightarrow>
      field_follows_memo (temp2 (data_set (getSensorData c r))) (prev_temp2 (getSensorData c r))) \<and>
   (getTempAndPressure r = Inr (p, t2) \<or> field_follows_memo (press (data_set c)) (prev_press c) \<longrightarrow>
      field_follows_memo (press (data_set (getSensorData c r))) (prev_press (getSensorData c r))) \<and>
   (prev_temp1 c \<noteq> None \<longrightarrow> prev_temp1 (getSensorData c r) \<noteq> None) \<and>
   (prev_humi c \<noteq> None \<longrightarrow> prev_humi (getSensorData c r) \<noteq> None) \<and>
   (prev_temp2 c \<noteq> None \<longrightarrow> prev_temp2 (getSensorData c r) \<noteq> None) \<and>
   (prev_press c \<noteq> None \<longrightarrow> prev_press (getSensorData c r) \<noteq> None)"
  by (auto simp: field_follows_memo_def gsd_fields split: sum.splits)

theorem C10_field_follows_memo_witness:
  "getTempAndHumi example_reads = Inr (21, 50) \<and>
   getTempAndPressure example_reads = Inr (1001.5, 25) \<and>
   prev_temp1 example_collector \<noteq> None \<and>
   prev_press example_collector \<noteq> None \<and>
   field_follows_memo (temp1 (data_set (getSensorData example_collector example_reads)))
     (prev_temp1 (getSensorData example_collector example_reads)) \<and>
   field_follows_memo (humi (data_set (getSensorData example_collector example_reads)))
     (prev_humi (getSensorData example_collector example_reads)) \<and>
   field_follows_memo (temp2 (data_set (getSensorData example_collector example_reads)))
     (prev_temp2 (getSensorData example_collector example_reads)) \<and>
   field_follows_memo (press (data_set (getSensorData example_collector example_reads)))
     (prev_press (getSensorData example_collector example_reads)) \<and>
   prev_temp1 (getSensorData example_collector example_reads) \<noteq> None \<and>
   prev_press (getSensorData example_collector example_reads) \<noteq> None"
  using C10_field_follows_memo [where r = example_reads and c = example_collector
      and ?t1.0 = 21 and h = 50 and p = "1001.5" and ?t2.0 = 25]
  by (simp add: example_reads_def example_collector_def SensorDataCollector_init_def)

subsection \<open>The upload task: retry loops, handshake, ticks\<close>

lemma sendLbs_loop_all_fail:
  "(\<forall>j<n. qth_sendLbs env (lbs_calls u + j) = Inr False) \<Longrightarrow>
   sendLbs_loop n env u =
     (Inr PyNone, uploader_info Info_LBS_fail
        (u\<lparr>lbs_calls := lbs_calls u + n, uploader_sleeps := uploader_sleeps u + n\<rparr>))"
proof (induction n arbitrary: u)
  case 0
  show ?case by simp
next
  case (Suc n)
  let ?u1 = "sleep1 (u\<lparr>lbs_calls := Suc (lbs_calls u)\<rparr>)"
  from Suc.prems have first: "qth_sendLbs env (lbs_calls u) = Inr False"
    by (metis add.right_neutral zero_less_Suc)
  have "\<forall>j<n. qth_sendLbs env (lbs_calls ?u1 + j) = Inr False"
    using Suc.prems by (simp add: sleep1_def) (metis Suc_less_eq add_Suc_right)
  from Suc.IH [OF this] first show ?case
    by (simp add: sleep1_def uploader_info_def)
qed

lemma sendLbs_loop_first_success:
  "k < n \<Longrightarrow> (\<forall>j<k. qth_sendLbs env (lbs_calls u + j) = Inr False) \<Longrightarrow>
   qth_sendLbs env (lbs_calls u + k) = Inr True \<Longrightarrow>
   sendLbs_loop n env u =
     (Inr PyNone, uploader_info Info_LBS_success
        (u\<lparr>lbs_calls := lbs_calls u + k + 1, uploader_sleeps := uploader_sleeps u + k\<rparr>))"
proof (induction n arbitrary: u k)
  case 0
  then show ?case by simp
next
  case (Suc n)
  show ?case
  proof (cases k)
    case 0
    with Suc.prems show ?thesis by (simp add: uploader_info_def)
  next
    case (Suc k')
    let ?u1 = "sleep1 (u\<lparr>lbs_calls := Suc (lbs_calls u)\<rparr>)"
    from Suc.prems Suc have first: "qth_sendLbs env (lbs_calls u) = Inr False"
      by (metis add.right_neutral zero_less_Suc)
    have a: "k' < n" using Suc.prems Suc by simp
    have b: "\<forall>j<k'. qth_sendLbs env (lbs_calls ?u1 + j) = Inr False"
      using Suc.prems(2) Suc by (simp add: sleep1_def) (metis Suc_less_eq add_Suc_right)
    have c: "qth_sendLbs env (lbs_calls ?u1 + k') = Inr True"
      using Suc.prems(3) Suc by (simp add: sleep1_def)
    from Suc.IH [OF a b c] first Suc show ?thesis
      by (simp add: sleep1_def uploader_info_def)
  qed
qed

lemma sendGnss_loop_all_fail:
  "(\<forall>j<n. qth_sendGnss env (gnss_calls u + j) = Inr False) \<Longrightarrow>
   sendGnss_loop n env u =
     (Inr PyNone, uploader_info Info_GNSS_fail
        (u\<lparr>gnss_calls := gnss_calls u + n, uploader_sleeps := uploader_sleeps u + n\<rparr>))"
proof (induction n arbitrary: u)
  case 0
  show ?case by simp
next
  case (Suc n)
  let ?u1 = "sleep1 (u\<lparr>gnss_calls := Suc (gnss_calls u)\<rparr>)"
  from Suc.prems have first: "qth_sendGnss env (gnss_calls u) = Inr False"
    by (metis add.right_neutral zero_less_Suc)
  have "\<forall>j<n. qth_sendGnss env (gnss_calls ?u1 + j) = Inr False"
    using Suc.prems by (simp add: sleep1_def) (metis Suc_less_eq add_Suc_right)
  from Suc.IH [OF this] first show ?case
    by (simp add: sleep1_def uploader_info_def)
qed

lemma sendGnss_loop_first_success:
  "k < n \<Longrightarrow> (\<forall>j<k. qth_sendGnss env (gnss_calls u + j) = Inr False) \<Longrightarrow>
   qth_sendGnss env (gnss_calls u + k) = Inr True \<Longrightarrow>
   sendGnss_loop n env u =
     (Inr PyNone, uploader_info Info_GNSS_success
        (u\<lparr>gnss_calls := gnss_calls u + k + 1, uploader_sleeps := uploader_sleeps u + k\<rparr>))"
proof (induction n arbitrary: u k)
  case 0
  then show ?case by simp
next
  case (Suc n)
  show ?case
  proof (cases k)
    case 0
    with Suc.prems show ?thesis by (simp add: uploader_info_def)
  next
    case (Suc k')
    let ?u1 = "sleep1 (u\<lparr>gnss_calls := Suc (gnss_calls u)\<rparr>)"
    from Suc.prems Suc have first: "qth_sendGnss env (gnss_calls u) = Inr False"
      by (metis add.right_neutral zero_less_Suc)
    have a: "k' < n" using Suc.prems Suc by simp
    have b: "\<forall>j<k'. qth_sendGnss env (gnss_calls ?u1 + j) = Inr False"
      using Suc.prems(2) Suc by (simp add: sleep1_def) (metis Suc_less_eq add_Suc_right)
    have c: "qth_sendGnss env (gnss_calls ?u1 + k') = Inr True"
      using Suc.prems(3) Suc by (simp add: sleep1_def)
    from Suc.IH [OF a b c] first Suc show ?thesis
      by (simp add: sleep1_def uploader_info_def)
  qed
qed

lemma sendLbs_loop_frame:
  "status_calls (snd (sendLbs_loop n env u)) = status_calls u \<and>
   gnss_calls (snd (sendLbs_loop n env u)) = gnss_calls u \<and>
   tsl_sent (snd (sendLbs_loop n env u)) = tsl_sent u \<and>
   data (snd (sendLbs_loop n env u)) = data u \<and>
   clock_reads (snd (sendLbs_loop n env u)) = clock_reads u"
  by (induction n arbitrary: u)
    (simp_all add: Let_def sleep1_def uploader_info_def split: sum.splits)

lemma sendLbs_loop_mono: "lbs_calls u \<le> lbs_calls (snd (sendLbs_loop n env u))"
proof (induction n arbitrary: u)
  case 0
  show ?case by (simp add: uploader_info_def)
next
  case (Suc n)
  have "Suc (lbs_calls u) \<le> lbs_calls (snd (sendLbs_loop n env (sleep1 (u\<lparr>lbs_calls := Suc (lbs_calls u)\<rparr>))))"
    using Suc.IH [of "sleep1 (u\<lparr>lbs_calls := Suc (lbs_calls u)\<rparr>)"] by (simp add: sleep1_def)
  then show ?case
    by (simp add: Let_def uploader_info_def split: sum.splits)
qed

lemma sendLbs_loop_calls: "0 < n \<Longrightarrow> lbs_calls u < lbs_calls (snd (sendLbs_loop n env u))"
proof (cases n)
  case 0
  assume "0 < n"
  with 0 show ?thesis by simp
next
  case (Suc m)
  have "Suc (lbs_calls u) \<le> lbs_calls (snd (sendLbs_loop m env (sleep1 (u\<lparr>lbs_calls := Suc (lbs_calls u)\<rparr>))))"
    using sendLbs_loop_mono [of "sleep1 (u\<lparr>lbs_calls := Suc (lbs_calls u)\<rparr>)" m env]
    by (simp add: sleep1_def)
  with Suc show ?thesis
    by (simp add: Let_def uploader_info_def split: sum.splits)
qed

lemma sendLbs_loop_no_raise:
  "(\<forall>j<n. \<not> isl (qth_sendLbs env (lbs_calls u + j))) \<Longrightarrow> fst (sendLbs_loop n env u) = Inr PyNone"
proof (induction n arbitrary: u)
  case 0
  show ?case by simp
next
  case (Suc n)
  let ?u1 = "sleep1 (u\<lparr>lbs_calls := Suc (lbs_calls u)\<rparr>)"
  from Suc.prems have first: "\<not> isl (qth_sendLbs env (lbs_calls u))"
    by (metis add.right_neutral zero_less_Suc)
  have "\<forall>j<n. \<not> isl (qth_sendLbs env (lbs_calls ?u1 + j))"
    using Suc.prems by (simp add: sleep1_def) (metis Suc_less_eq add_Suc_right)
  from Suc.IH [OF this] first show ?case
    by (cases "qth_sendLbs env (lbs_calls u)") (simp_all add: Let_def)
qed

lemma sendGnss_loop_frame:
  "status_calls (snd (sendGnss_loop n env u)) = status_calls u \<and>
   lbs_calls (snd (sendGnss_loop n env u)) = lbs_calls u \<and>
   tsl_sent (snd (sendGnss_loop n env u)) = tsl_sent u \<and>
   data (snd (sendGnss_loop n env u)) = data u \<and>
   clock_reads (snd (sendGnss_loop n env u)) = clock_reads u"
  by (induction n arbitrary: u)
    (simp_all add: Let_def sleep1_def uploader_info_def split: sum.splits)

lemma sendGnss_loop_mono: "gnss_calls u \<le> gnss_calls (snd (sendGnss_loop n env u))"
proof (induction n arbitrary: u)
  case 0
  show ?case by (simp add: uploader_info_def)
next
  case (Suc n)
  have "Suc (gnss_calls u) \<le> gnss_calls (snd (sendGnss_loop n env (sleep1 (u\<lparr>gnss_calls := Suc (gnss_calls u)\<rparr>))))"
    using Suc.IH [of "sleep1 (u\<lparr>gnss_calls := Suc (gnss_calls u)\<rparr>)"] by (simp add: sleep1_def)
  then show ?case
    by (simp add: Let_def uploader_info_def split: sum.splits)
qed

lemma sendGnss_loop_calls: "0 < n \<Longrightarrow> gnss_calls u < gnss_calls (snd (sendGnss_loop n env u))"
proof (cases n)
  case 0
  assume "0 < n"
  with 0 show ?thesis by simp
next
  case (Suc m)
  have "Suc (gnss_calls u) \<le> gnss_calls (snd (sendGnss_loop m env (sleep1 (u\<lparr>gnss_calls := Suc (gnss_calls u)\<rparr>))))"
    using sendGnss_loop_mono [of "sleep1 (u\<lparr>gnss_calls := Suc (gnss_calls u)\<rparr>)" m env]
    by (simp add: sleep1_def)
  with Suc show ?thesis
    by (simp add: Let_def uploader_info_def split: sum.splits)
qed

lemma sendGnss_loop_no_raise:
  "(\<forall>j<n. \<not> isl (qth_sendGnss env (gnss_calls u + j))) \<Longrightarrow> fst (sendGnss_loop n env u) = Inr PyNone"
proof (induction n arbitrary: u)
  case 0
  show ?case by simp
next
  case (Suc n)
  let ?u1 = "sleep1 (u\<lparr>gnss_calls := Suc (gnss_calls u)\<rparr>)"
  from Suc.prems have first: "\<not> isl (qth_sendGnss env (gnss_calls u))"
    by (metis add.right_neutral zero_less_Suc)
  have "\<forall>j<n. \<not> isl (qth_sendGnss env (gnss_calls ?u1 + j))"
    using Suc.prems by (simp add: sleep1_def) (metis Suc_less_eq add_Suc_right)
  from Suc.IH [OF this] first show ?case
    by (cases "qth_sendGnss env (gnss_calls u)") (simp_all add: Let_def)
qed

lemma wait_status_first_success:
  "k < n \<Longrightarrow> (\<forall>j<k. qth_isStatusOk env (status_calls u + j) = Inr False) \<Longrightarrow>
   qth_isStatusOk env (status_calls u + k) = Inr True \<Longrightarrow>
   wait_status n env u =
     (Inr True, u\<lparr>status_calls := status_calls u + k + 1, uploader_sleeps := uploader_sleeps u + k\<rparr>)"
proof (induction n arbitrary: u k)
  case 0
  then show ?case by simp
next
  case (Suc n)
  show ?case
  proof (cases k)
    case 0
    with Suc.prems show ?thesis by simp
  next
    case (Suc k')
    let ?u1 = "sleep1 (u\<lparr>status_calls := Suc (status_calls u)\<rparr>)"
    from Suc.prems Suc have first: "qth_isStatusOk env (status_calls u) = Inr False"
      by (metis add.right_neutral zero_less_Suc)
    have a: "k' < n" using Suc.prems Suc by simp
    have b: "\<forall>j<k'. qth_isStatusOk env (status_calls ?u1 + j) = Inr False"
      using Suc.prems(2) Suc by (simp add: sleep1_def) (metis Suc_less_eq add_Suc_right)
    have c: "qth_isStatusOk env (status_calls ?u1 + k') = Inr True"
      using Suc.prems(3) Suc by (simp add: sleep1_def)
    from Suc.IH [OF a b c] first Suc show ?thesis
      by (simp add: sleep1_def)
  qed
qed

lemma wait_status_all_fail:
  "(\<forall>j<n. qth_isStatusOk env (status_calls u + j) = Inr False) \<Longrightarrow>
   wait_status n env u =
     (Inr False, u\<lparr>status_calls := status_calls u + n, uploader_sleeps := uploader_sleeps u + n\<rparr>)"
proof (induction n arbitrary: u)
  case 0
  show ?case by simp
next
  case (Suc n)
  let ?u1 = "sleep1 (u\<lparr>status_calls := Suc (status_calls u)\<rparr>)"
  from Suc.prems have first: "qth_isStatusOk env (status_calls u) = Inr False"
    by (metis add.right_neutral zero_less_Suc)
  have "\<forall>j<n. qth_isStatusOk env (status_calls ?u1 + j) = Inr False"
    using Suc.prems by (simp add: sleep1_def) (metis Suc_less_eq add_Suc_right)
  from Suc.IH [OF this] first show ?case
    by (simp add: sleep1_def)
qed

lemma wait_status_bound:
  "status_calls (snd (wait_status n env u)) \<le> status_calls u + n \<and>
   uploader_sleeps (snd (wait_status n env u)) \<le> uploader_sleeps u + n \<and>
   tsl_sent (snd (wait_status n env u)) = tsl_sent u"
proof (induction n arbitrary: u)
  case 0
  show ?case by simp
next
  case (Suc n)
  from Suc.IH [of "sleep1 (u\<lparr>status_calls := Suc (status_calls u)\<rparr>)"] show ?case
    by (cases "qth_isStatusOk env (status_calls u)") (simp_all add: Let_def sleep1_def)
qed

lemma steady_loop_running:
  "\<exists>u'. steady_loop env u dss = Running u'"
  by (induction dss arbitrary: u) simp_all

lemma metric_updates_Some:
  "metric_updates ds (Some m) =
     Inr (Some (put_metric 6 (press ds) (put_metric 5 (temp2 ds)
            (put_metric 4 (humi ds) (put_metric 3 (temp1 ds) m)))))"
  by (simp add: metric_updates_def dict_update_def and_then_def put_metric_def split: option.splits)

lemma metric_updates_None:
  "metric_updates ds None = Inl UnboundLocalError \<or> metric_updates ds None = Inr None"
  by (simp add: metric_updates_def dict_update_def and_then_def split: option.splits)

lemma tick_body_not_ready:
  "qth_isStatusOk env (status_calls u) = Inr False \<Longrightarrow>
   tick_body env ds u = (None, uploader_info Error_connect (u\<lparr>status_calls := Suc (status_calls u)\<rparr>))"
  by (simp add: tick_body_def)

lemma tick_body_unbound:
  "qth_isStatusOk env (status_calls u) = Inr True \<Longrightarrow> data u = None \<Longrightarrow>
   timestamp_of env u mod 5 \<noteq> 0 \<Longrightarrow>
   tick_body env ds u =
     (Some UnboundLocalError,
      u\<lparr>status_calls := Suc (status_calls u), clock_reads := Suc (clock_reads u)\<rparr>)"
  using metric_updates_None [of ds]
  by (auto simp: tick_body_def Let_def)

lemma tick_body_bound:
  "qth_isStatusOk env (status_calls u) = Inr True \<Longrightarrow>
   timestamp_of env u mod 5 = 0 \<or> data u \<noteq> None \<Longrightarrow>
   tick_body env ds u =
     (let m = assembled env ds u;
          u4 = u\<lparr>status_calls := Suc (status_calls u), clock_reads := Suc (clock_reads u),
                 data := Some m, tsl_sent := tsl_sent u @ [(1, m)]\<rparr>
      in case qth_sendTsl env (length (tsl_sent u)) of
           Inl e \<Rightarrow> (Some e, u4)
         | Inr result \<Rightarrow>
             (case report_lbs env (timestamp_of env u) (uploader_info (Info_upload_result result) u4) of
                (Some e, u5) \<Rightarrow> (Some e, u5)
              | (None, u5) \<Rightarrow> report_gnss env (timestamp_of env u) u5))"
proof (cases "timestamp_of env u mod 5 = 0")
  case True
  assume "qth_isStatusOk env (status_calls u) = Inr True"
  with True show ?thesis
    by (simp add: tick_body_def assembled_def Let_def metric_updates_Some
        cong: prod.case_cong option.case_cong sum.case_cong)
next
  case False
  assume ok: "qth_isStatusOk env (status_calls u) = Inr True"
    and "timestamp_of env u mod 5 = 0 \<or> data u \<noteq> None"
  with False obtain m0 where "data u = Some m0" by auto
  with False ok show ?thesis
    by (simp add: tick_body_def assembled_def Let_def metric_updates_Some
        cong: prod.case_cong option.case_cong sum.case_cong)
qed

lemma sendLbs_outcome:
  assumes "k \<le> 10" "\<forall>j<k. qth_sendLbs env (lbs_calls u + j) = Inr False"
    "k < 10 \<longrightarrow> qth_sendLbs env (lbs_calls u + k) = Inr True"
  shows "sendLbs env u =
     (Inr PyNone, uploader_info (if k < 10 then Info_LBS_success else Info_LBS_fail)
        (u\<lparr>lbs_calls := lbs_calls u + (if k < 10 then k + 1 else 10),
           uploader_sleeps := uploader_sleeps u + k\<rparr>))"
proof (cases "k < 10")
  case True
  with assms sendLbs_loop_first_success [of k 10 env u] show ?thesis
    by (simp add: sendLbs_def)
next
  case False
  with assms have "k = 10" by simp
  with assms sendLbs_loop_all_fail [of 10 env u] show ?thesis
    by (simp add: sendLbs_def)
qed

lemma sendGnss_outcome:
  assumes "k \<le> 10" "\<forall>j<k. qth_sendGnss env (gnss_calls u + j) = Inr False"
    "k < 10 \<longrightarrow> qth_sendGnss env (gnss_calls u + k) = Inr True"
  shows "sendGnss env u =
     (Inr PyNone, uploader_info (if k < 10 then Info_GNSS_success else Info_GNSS_fail)
        (u\<lparr>gnss_calls := gnss_calls u + (if k < 10 then k + 1 else 10),
           uploader_sleeps := uploader_sleeps u + k\<rparr>))"
proof (cases "k < 10")
  case True
  with assms sendGnss_loop_first_success [of k 10 env u] show ?thesis
    by (simp add: sendGnss_def)
next
  case False
  with assms have "k = 10" by simp
  with assms sendGnss_loop_all_fail [of 10 env u] show ?thesis
    by (simp add: sendGnss_def)
qed

text \<open>
  Claim C2 as stated fails for a coarse-location call that fails every time: the loop
  sleeps after each of the ten failed attempts, the last one included, and the function
  falls off its end, so its value is \<^verbatim>\<open>None\<close>, not a boolean.
\<close>

theorem C2_counterexample:
  "\<not> (fst (sendLbs env_online SensorDataUploader_init) = Inr (PyBool False)) \<and>
   \<not> (uploader_sleeps (snd (sendLbs env_online SensorDataUploader_init)) = 9) \<and>
   fst (sendLbs env_online SensorDataUploader_init) = Inr PyNone \<and>
   lbs_calls (snd (sendLbs env_online SensorDataUploader_init)) = 10 \<and>
   uploader_sleeps (snd (sendLbs env_online SensorDataUploader_init)) = 10"
  using sendLbs_outcome [of 10 env_online SensorDataUploader_init]
  by (simp add: env_online_def SensorDataUploader_init_def uploader_info_def)

text \<open>
  Claim C2, amended. Let \<open>k\<close> be the number of failed attempts before the first
  success, or 10 when all ten attempts fail. \<^verbatim>\<open>sendLbs\<close> and \<^verbatim>\<open>sendGnss\<close> call the
  client \<open>k + 1\<close> times when \<open>k < 10\<close> and 10 times otherwise, sleep once after every
  failed attempt (\<open>k\<close> sleeps) and log the success or the failure.
\<close>

theorem C2_retry_loop:
  "(k \<le> 10 \<and> (\<forall>j<k. qth_sendLbs env (lbs_calls u + j) = Inr False) \<and>
    (k < 10 \<longrightarrow> qth_sendLbs env (lbs_calls u + k) = Inr True) \<longrightarrow>
      lbs_calls (snd (sendLbs env u)) = lbs_calls u + (if k < 10 then k + 1 else 10) \<and>
      uploader_sleeps (snd (sendLbs env u)) = uploader_sleeps u + k \<and>
      uploader_log (snd (sendLbs env u)) =
        uploader_log u @ [if k < 10 then Info_LBS_success else Info_LBS_fail]) \<and>
   (k' \<le> 10 \<and> (\<forall>j<k'. qth_sendGnss env (gnss_calls u + j) = Inr False) \<and>
    (k' < 10 \<longrightarrow> qth_sendGnss env (gnss_calls u + k') = Inr True) \<longrightarrow>
      gnss_calls (snd (sendGnss env u)) = gnss_calls u + (if k' < 10 then k' + 1 else 10) \<and>
      uploader_sleeps (snd (sendGnss env u)) = uploader_sleeps u + k' \<and>
      uploader_log (snd (sendGnss env u)) =
        uploader_log u @ [if k' < 10 then Info_GNSS_success else Info_GNSS_fail])"
proof (intro conjI impI)
  assume a: "k \<le> 10 \<and> (\<forall>j<k. qth_sendLbs env (lbs_calls u + j) = Inr False) \<and>
    (k < 10 \<longrightarrow> qth_sendLbs env (lbs_calls u + k) = Inr True)"
  then have e: "sendLbs env u =
     (Inr PyNone, uploader_info (if k < 10 then Info_LBS_success else Info_LBS_fail)
        (u\<lparr>lbs_calls := lbs_calls u + (if k < 10 then k + 1 else 10),
           uploader_sleeps := uploader_sleeps u + k\<rparr>))"
    using sendLbs_outcome [of k env u] by blast
  show "lbs_calls (snd (sendLbs env u)) = lbs_calls u + (if k < 10 then k + 1 else 10)"
    by (simp add: e uploader_info_def)
  show "uploader_sleeps (snd (sendLbs env u)) = uploader_sleeps u + k"
    by (simp add: e uploader_info_def)
  show "uploader_log (snd (sendLbs env u)) =
        uploader_log u @ [if k < 10 then Info_LBS_success else Info_LBS_fail]"
    by (simp add: e uploader_info_def)
next
  assume a: "k' \<le> 10 \<and> (\<forall>j<k'. qth_sendGnss env (gnss_calls u + j) = Inr False) \<and>
    (k' < 10 \<longrightarrow> qth_sendGnss env (gnss_calls u + k') = Inr True)"
  then have e: "sendGnss env u =
     (Inr PyNone, uploader_info (if k' < 10 then Info_GNSS_success else Info_GNSS_fail)
        (u\<lparr>gnss_calls := gnss_calls u + (if k' < 10 then k' + 1 else 10),
           uploader_sleeps := uploader_sleeps u + k'\<rparr>))"
    using sendGnss_outcome [of k' env u] by blast
  show "gnss_calls (snd (sendGnss env u)) = gnss_calls u + (if k' < 10 then k' + 1 else 10)"
    by (simp add: e uploader_info_def)
  show "uploader_sleeps (snd (sendGnss env u)) = uploader_sleeps u + k'"
    by (simp add: e uploader_info_def)
  show "uploader_log (snd (sendGnss env u)) =
        uploader_log u @ [if k' < 10 then Info_GNSS_success else Info_GNSS_fail]"
    by (simp add: e uploader_info_def)
qed

theorem C2_retry_loop_witness:
  "qth_sendLbs env_online 9 = Inr False \<and>
   qth_sendGnss env_online 1 = Inr False \<and>
   qth_sendGnss env_online 2 = Inr True \<and>
   lbs_calls (snd (sendLbs env_online SensorDataUploader_init)) = 10 \<and>
   uploader_sleeps (snd (sendLbs env_online SensorDataUploader_init)) = 10 \<and>
   uploader_log (snd (sendLbs env_online SensorDataUploader_init)) = [Info_LBS_fail] \<and>
   gnss_calls (snd (sendGnss env_online SensorDataUploader_init)) = 3 \<and>
   uploader_sleeps (snd (sendGnss env_online SensorDataUploader_init)) = 2 \<and>
   uploader_log (snd (sendGnss env_online SensorDataUploader_init)) = [Info_GNSS_success]"
  using C2_retry_loop [where k = 10 and k' = 2 and env = env_online and u = SensorDataUploader_init]
  by (simp add: env_online_def SensorDataUploader_init_def less_Suc_eq numeral_3_eq_3 numeral_2_eq_2)

lemma sendLbs_never_raises:
  "\<forall>n. \<not> isl (qth_sendLbs env n) \<Longrightarrow> \<exists>u'. sendLbs env u = (Inr PyNone, u')"
  using sendLbs_loop_no_raise [of 10 env u]
  by (simp add: sendLbs_def) (metis prod.collapse)

lemma sendGnss_never_raises:
  "\<forall>n. \<not> isl (qth_sendGnss env n) \<Longrightarrow> \<exists>u'. sendGnss env u = (Inr PyNone, u')"
  using sendGnss_loop_no_raise [of 10 env u]
  by (simp add: sendGnss_def) (metis prod.collapse)

lemma wait_status_outcome:
  assumes "k \<le> 30" "\<forall>j<k. qth_isStatusOk env (status_calls u + j) = Inr False"
    "k < 30 \<longrightarrow> qth_isStatusOk env (status_calls u + k) = Inr True"
  shows "wait_status 30 env u =
     (Inr (k < 30), u\<lparr>status_calls := status_calls u + (if k < 30 then k + 1 else 30),
                       uploader_sleeps := uploader_sleeps u + k\<rparr>)"
proof (cases "k < 30")
  case True
  with assms wait_status_first_success [of k 30 env u] show ?thesis by simp
next
  case False
  with assms have "k = 30" by simp
  with assms wait_status_all_fail [of 30 env u] show ?thesis by simp
qed

lemma report_lbs_frame:
  "status_calls (snd (report_lbs env ts u)) = status_calls u \<and>
   gnss_calls (snd (report_lbs env ts u)) = gnss_calls u \<and>
   tsl_sent (snd (report_lbs env ts u)) = tsl_sent u \<and>
   data (snd (report_lbs env ts u)) = data u \<and>
   clock_reads (snd (report_lbs env ts u)) = clock_reads u"
  using sendLbs_loop_frame [of 10 env u]
  by (cases "sendLbs_loop 10 env u")
    (auto simp: report_lbs_def sendLbs_def uploader_info_def split: sum.splits)

lemma report_gnss_frame:
  "status_calls (snd (report_gnss env ts u)) = status_calls u \<and>
   lbs_calls (snd (report_gnss env ts u)) = lbs_calls u \<and>
   tsl_sent (snd (report_gnss env ts u)) = tsl_sent u \<and>
   data (snd (report_gnss env ts u)) = data u \<and>
   clock_reads (snd (report_gnss env ts u)) = clock_reads u"
  using sendGnss_loop_frame [of 10 env u]
  by (cases "sendGnss_loop 10 env u")
    (auto simp: report_gnss_def sendGnss_def uploader_info_def split: sum.splits)




lemma report_locations_frame:
  "status_calls (snd (report_locations env ts u)) = status_calls u \<and>
   tsl_sent (snd (report_locations env ts u)) = tsl_sent u \<and>
   data (snd (report_locations env ts u)) = data u \<and>
   clock_reads (snd (report_locations env ts u)) = clock_reads u"
  using report_lbs_frame [of env ts u] report_gnss_frame [of env ts "snd (report_lbs env ts u)"]
  by (cases "report_lbs env ts u") (auto simp: report_locations_def split: option.splits)


lemma tick_body_sent:
  "qth_isStatusOk env (status_calls u) = Inr True \<Longrightarrow>
   timestamp_of env u mod 5 = 0 \<or> data u \<noteq> None \<Longrightarrow>
   qth_sendTsl env (length (tsl_sent u)) = Inr result \<Longrightarrow>
   tick_body env ds u =
     report_locations env (timestamp_of env u)
       (uploader_info (Info_upload_result result)
          (u\<lparr>status_calls := Suc (status_calls u), clock_reads := Suc (clock_reads u),
             data := Some (assembled env ds u),
             tsl_sent := tsl_sent u @ [(1, assembled env ds u)]\<rparr>))"
  by (simp add: tick_body_bound report_locations_def Let_def)

lemma tick_body_send_raises:
  "qth_isStatusOk env (status_calls u) = Inr True \<Longrightarrow>
   timestamp_of env u mod 5 = 0 \<or> data u \<noteq> None \<Longrightarrow>
   qth_sendTsl env (length (tsl_sent u)) = Inl e \<Longrightarrow>
   tick_body env ds u =
     (Some e, u\<lparr>status_calls := Suc (status_calls u), clock_reads := Suc (clock_reads u),
                 data := Some (assembled env ds u),
                 tsl_sent := tsl_sent u @ [(1, assembled env ds u)]\<rparr>)"
  by (simp add: tick_body_bound Let_def)

lemma tick_body_status_raises:
  "qth_isStatusOk env (status_calls u) = Inl e \<Longrightarrow>
   tick_body env ds u = (Some e, u\<lparr>status_calls := Suc (status_calls u)\<rparr>)"
  by (simp add: tick_body_def)

lemma tick_fields:
  "status_calls (tick env ds u) = status_calls (snd (tick_body env ds u)) \<and>
   lbs_calls (tick env ds u) = lbs_calls (snd (tick_body env ds u)) \<and>
   gnss_calls (tick env ds u) = gnss_calls (snd (tick_body env ds u)) \<and>
   tsl_sent (tick env ds u) = tsl_sent (snd (tick_body env ds u)) \<and>
   data (tick env ds u) = data (snd (tick_body env ds u)) \<and>
   clock_reads (tick env ds u) = clock_reads (snd (tick_body env ds u)) \<and>
   uploader_sleeps (tick env ds u) = uploader_sleeps (snd (tick_body env ds u))"
  by (cases "tick_body env ds u") (auto simp: tick_def uploader_info_def split: option.splits)

lemma tick_body_status_calls: "status_calls (snd (tick_body env ds u)) = Suc (status_calls u)"
proof (cases "qth_isStatusOk env (status_calls u)")
  case (Inl e)
  then show ?thesis by (simp add: tick_body_status_raises)
next
  case (Inr ok)
  show ?thesis
  proof (cases ok)
    case False
    with Inr show ?thesis by (simp add: tick_body_not_ready uploader_info_def)
  next
    case True
    with Inr have ok: "qth_isStatusOk env (status_calls u) = Inr True" by simp
    show ?thesis
    proof (cases "timestamp_of env u mod 5 = 0 \<or> data u \<noteq> None")
      case False
      with ok show ?thesis by (simp add: tick_body_unbound)
    next
      case bound: True
      show ?thesis
      proof (cases "qth_sendTsl env (length (tsl_sent u))")
        case (Inl e)
        from tick_body_send_raises [OF ok bound Inl] show ?thesis by simp
      next
        case (Inr result)
        from tick_body_sent [OF ok bound Inr] show ?thesis
          by (simp add: report_locations_frame uploader_info_def)
      qed
    qed
  qed
qed

lemma steady_loop_polls:
  "\<exists>u'. steady_loop env u dss = Running u' \<and> status_calls u' = status_calls u + length dss"
proof (induction dss arbitrary: u)
  case Nil
  show ?case by simp
next
  case (Cons ds dss)
  from Cons.IH [of "sleep1 (tick env ds u)"] obtain u' where
    "steady_loop env (sleep1 (tick env ds u)) dss = Running u'"
    "status_calls u' = status_calls (sleep1 (tick env ds u)) + length dss" by blast
  then show ?case
    by (simp add: sleep1_def tick_fields tick_body_status_calls)
qed



lemma report_locations_idle:
  "ts mod 1800 \<noteq> 0 \<Longrightarrow> ts mod 60 \<noteq> 0 \<Longrightarrow> report_locations env ts u = (None, u)"
  by (simp add: report_locations_def report_lbs_def report_gnss_def)

lemma report_locations_no_lbs:
  "ts mod 1800 \<noteq> 0 \<Longrightarrow> lbs_calls (snd (report_locations env ts u)) = lbs_calls u"
  using report_gnss_frame [of env ts u]
  by (simp add: report_locations_def report_lbs_def)

lemma tick_body_data_bound:
  "data u = None \<Longrightarrow> data (snd (tick_body env ds u)) \<noteq> None \<Longrightarrow>
   qth_isStatusOk env (status_calls u) = Inr True \<and> timestamp_of env u mod 5 = 0"
proof (cases "qth_isStatusOk env (status_calls u)")
  case (Inl e)
  assume "data u = None" "data (snd (tick_body env ds u)) \<noteq> None"
  with Inl show ?thesis by (simp add: tick_body_status_raises)
next
  case (Inr ok)
  assume d: "data u = None" "data (snd (tick_body env ds u)) \<noteq> None"
  show ?thesis
  proof (cases ok)
    case False
    with Inr d show ?thesis by (simp add: tick_body_not_ready uploader_info_def)
  next
    case True
    with Inr have ok: "qth_isStatusOk env (status_calls u) = Inr True" by simp
    show ?thesis
    proof (cases "timestamp_of env u mod 5 = 0")
      case True
      with ok show ?thesis by simp
    next
      case False
      with ok d show ?thesis by (simp add: tick_body_unbound)
    qed
  qed
qed

lemma tick_body_sends:
  assumes ok: "qth_isStatusOk env (status_calls u) = Inr True"
    and bound: "timestamp_of env u mod 5 = 0 \<or> data u \<noteq> None"
  shows "tsl_sent (snd (tick_body env ds u)) = tsl_sent u @ [(1, assembled env ds u)]"
proof (cases "qth_sendTsl env (length (tsl_sent u))")
  case (Inl e)
  from tick_body_send_raises [OF ok bound Inl] show ?thesis by simp
next
  case (Inr result)
  from tick_body_sent [OF ok bound Inr] show ?thesis
    by (simp add: report_locations_frame uploader_info_def)
qed

text \<open>
  Claim C7, amended. On a tick that passes the status check, whose timestamp is not a
  multiple of 5 and before which \<^verbatim>\<open>data\<close> was never bound, reading \<^verbatim>\<open>data\<close> raises
  \<^verbatim>\<open>UnboundLocalError\<close>: nothing is sent, \<^verbatim>\<open>data\<close> stays unbound and the handler
  prints the exception. Only a tick that passes the status check on a multiple of 5 binds
  \<^verbatim>\<open>data\<close>; once it is bound, a later tick that passes the status check sends a
  payload whatever its timestamp.
\<close>

theorem C7_unbound_data:
  "(data u = None \<and> qth_isStatusOk env (status_calls u) = Inr True \<and>
    timestamp_of env u mod 5 \<noteq> 0 \<longrightarrow>
      fst (tick_body env ds u) = Some UnboundLocalError \<and>
      tsl_sent (tick env ds u) = tsl_sent u \<and>
      data (tick env ds u) = None \<and>
      uploader_log (tick env ds u) = uploader_log u @ [Print UnboundLocalError]) \<and>
   (data u = None \<and> data (tick env ds u) \<noteq> None \<longrightarrow>
      qth_isStatusOk env (status_calls u) = Inr True \<and> timestamp_of env u mod 5 = 0) \<and>
   (data u \<noteq> None \<and> qth_isStatusOk env (status_calls u) = Inr True \<longrightarrow>
      tsl_sent (tick env ds u) = tsl_sent u @ [(1, assembled env ds u)])"
proof (intro conjI impI)
  assume a: "data u = None \<and> qth_isStatusOk env (status_calls u) = Inr True \<and>
    timestamp_of env u mod 5 \<noteq> 0"
  then have b: "tick_body env ds u =
     (Some UnboundLocalError,
      u\<lparr>status_calls := Suc (status_calls u), clock_reads := Suc (clock_reads u)\<rparr>)"
    by (simp add: tick_body_unbound)
  show "fst (tick_body env ds u) = Some UnboundLocalError" by (simp add: b)
  show "tsl_sent (tick env ds u) = tsl_sent u" by (simp add: tick_fields b)
  show "data (tick env ds u) = None" using a by (simp add: tick_fields b)
  show "uploader_log (tick env ds u) = uploader_log u @ [Print UnboundLocalError]"
    by (simp add: tick_def b uploader_info_def)
next
  assume a: "data u = None \<and> data (tick env ds u) \<noteq> None"
  then have "data u = None" "data (snd (tick_body env ds u)) \<noteq> None"
    by (simp_all add: tick_fields)
  from tick_body_data_bound [OF this]
  show "qth_isStatusOk env (status_calls u) = Inr True" "timestamp_of env u mod 5 = 0"
    by simp_all
next
  assume a: "data u \<noteq> None \<and> qth_isStatusOk env (status_calls u) = Inr True"
  then show "tsl_sent (tick env ds u) = tsl_sent u @ [(1, assembled env ds u)]"
    by (simp add: tick_fields tick_body_sends)
qed

lemma tick_online_5:
  "tick env_online ds_tick5 (uploader_at 5) =
     uploader_info (Info_upload_result True)
       ((uploader_at 5)\<lparr>status_calls := 1, clock_reads := 6,
          data := Some (assembled env_online ds_tick5 (uploader_at 5)),
          tsl_sent := [(1, assembled env_online ds_tick5 (uploader_at 5))]\<rparr>)"
proof -
  have "tick_body env_online ds_tick5 (uploader_at 5) =
     report_locations env_online (timestamp_of env_online (uploader_at 5))
       (uploader_info (Info_upload_result True)
          ((uploader_at 5)\<lparr>status_calls := Suc (status_calls (uploader_at 5)),
             clock_reads := Suc (clock_reads (uploader_at 5)),
             data := Some (assembled env_online ds_tick5 (uploader_at 5)),
             tsl_sent := tsl_sent (uploader_at 5) @ [(1, assembled env_online ds_tick5 (uploader_at 5))]\<rparr>))"
    by (rule tick_body_sent) (simp_all add: env_online_def uploader_at_def SensorDataUploader_init_def)
  moreover have "timestamp_of env_online (uploader_at 5) = 5"
    by (simp add: env_online_def uploader_at_def)
  ultimately show ?thesis
    by (simp add: tick_def report_locations_idle uploader_at_def SensorDataUploader_init_def)
qed

lemmas uploader_eval = tick_def tick_body_def metric_updates_def dict_update_def and_then_def
  report_lbs_def report_gnss_def uploader_info_def sleep1_def rgb_payload_def
  env_online_def ds_tick5_def ds_tick6_def uploader_at_def SensorDataUploader_init_def Let_def

theorem C7_unbound_data_witness:
  "data (uploader_at 6) = None \<and>
   qth_isStatusOk env_online (status_calls (uploader_at 6)) = Inr True \<and>
   timestamp_of env_online (uploader_at 6) mod 5 = 1 \<and>
   fst (tick_body env_online ds_tick5 (uploader_at 6)) = Some UnboundLocalError \<and>
   tsl_sent (tick env_online ds_tick5 (uploader_at 6)) = [] \<and>
   data (tick env_online ds_tick5 (uploader_at 6)) = None \<and>
   uploader_log (tick env_online ds_tick5 (uploader_at 6)) = [Print UnboundLocalError] \<and>
   timestamp_of env_online (uploader_at 5) mod 5 = 0 \<and>
   tsl_sent (tick env_online ds_tick6 (sleep1 (tick env_online ds_tick5 (uploader_at 5)))) =
     tsl_sent (sleep1 (tick env_online ds_tick5 (uploader_at 5))) @
       [(1, assembled env_online ds_tick6 (sleep1 (tick env_online ds_tick5 (uploader_at 5))))]"
proof -
  have a: "data (uploader_at 6) = None"
    "qth_isStatusOk env_online (status_calls (uploader_at 6)) = Inr True"
    "timestamp_of env_online (uploader_at 6) mod 5 = 1"
    by (simp_all add: env_online_def uploader_at_def SensorDataUploader_init_def)
  then have a': "timestamp_of env_online (uploader_at 6) mod 5 \<noteq> 0" by simp
  have s0: "tsl_sent (uploader_at 6) = []" "uploader_log (uploader_at 6) = []"
    by (simp_all add: uploader_at_def SensorDataUploader_init_def)
  from C7_unbound_data [where env = env_online and u = "uploader_at 6" and ds = ds_tick5] a(1,2) a'
  have r6: "fst (tick_body env_online ds_tick5 (uploader_at 6)) = Some UnboundLocalError"
    "tsl_sent (tick env_online ds_tick5 (uploader_at 6)) = tsl_sent (uploader_at 6)"
    "data (tick env_online ds_tick5 (uploader_at 6)) = None"
    "uploader_log (tick env_online ds_tick5 (uploader_at 6)) =
       uploader_log (uploader_at 6) @ [Print UnboundLocalError]"
    by blast+
  have b: "data (uploader_at 5) = None"
    "data (tick env_online ds_tick5 (uploader_at 5)) \<noteq> None"
    by (simp_all add: tick_online_5 uploader_info_def)
      (simp add: uploader_at_def SensorDataUploader_init_def)
  from C7_unbound_data [where env = env_online and u = "uploader_at 5" and ds = ds_tick5] b
  have r5: "timestamp_of env_online (uploader_at 5) mod 5 = 0"
    by blast
  have c: "data (sleep1 (tick env_online ds_tick5 (uploader_at 5))) \<noteq> None"
    "qth_isStatusOk env_online (status_calls (sleep1 (tick env_online ds_tick5 (uploader_at 5)))) = Inr True"
    by (simp_all add: tick_online_5 uploader_info_def sleep1_def) (simp add: env_online_def)
  from C7_unbound_data [where env = env_online
      and u = "sleep1 (tick env_online ds_tick5 (uploader_at 5))" and ds = ds_tick6] c
  have r56: "tsl_sent (tick env_online ds_tick6 (sleep1 (tick env_online ds_tick5 (uploader_at 5)))) =
     tsl_sent (sleep1 (tick env_online ds_tick5 (uploader_at 5))) @
       [(1, assembled env_online ds_tick6 (sleep1 (tick env_online ds_tick5 (uploader_at 5))))]"
    by blast
  from a r6 [unfolded s0] r5 r56 show ?thesis
    by (intro conjI) simp_all
qed

text \<open>
  Claim C7 as stated fails on the run with timestamps 5 and 6: the second iteration is
  the first whose timestamp is not a multiple of 5, \<^verbatim>\<open>data\<close> is still bound from the
  first, no exception leaves the body, and a second payload is sent.
\<close>

theorem C7_counterexample:
  "timestamp_of env_online (uploader_at 5) mod 5 = 0 \<and>
   timestamp_of env_online (sleep1 (tick env_online ds_tick5 (uploader_at 5))) mod 5 = 1 \<and>
   fst (tick_body env_online ds_tick6 (sleep1 (tick env_online ds_tick5 (uploader_at 5)))) = None \<and>
   length (tsl_sent (snd (tick_body env_online ds_tick6
      (sleep1 (tick env_online ds_tick5 (uploader_at 5)))))) = 2"
  by (simp add: uploader_eval)

text \<open>
  Claim C5 against the code, on the same run. At timestamp 6, not a multiple of 5 and
  with temp1 at the no-change marker in the shared set, the payload sent still holds the
  colour group (the colours of timestamp 5, not those of the snapshot) and temp1 = 20;
  and a first tick at timestamp 6 sends nothing at all.
\<close>

theorem C5_stale_payload:
  "timestamp_of env_online (sleep1 (tick env_online ds_tick5 (uploader_at 5))) mod 5 = 1 \<and>
   temp1 ds_tick6 = None \<and>
   rgb888 ds_tick6 = 0x445566 \<and>
   tsl_sent (tick env_online ds_tick5 (uploader_at 6)) = [] \<and>
   map (\<lambda>(profile, p). (profile, p 7, p 3)) (tsl_sent run_5_6) =
     [(1, Some (Nested [(1, 0x11), (2, 0x22), (3, 0x33)]), Some (Num 20)),
      (1, Some (Nested [(1, 0x11), (2, 0x22), (3, 0x33)]), Some (Num 20))]"
  by (simp add: run_5_6_def uploader_eval)

text \<open>
  Claim C8. A tick whose status check answers false logs the error and does nothing
  else: its result does not depend on the shared set, nothing is sent, no location call
  is made, the clock is not read and \<^verbatim>\<open>data\<close> is left as it was; the loop then sleeps
  and goes on.
\<close>

theorem C8_not_ready_tick:
  "qth_isStatusOk env (status_calls u) = Inr False \<longrightarrow>
     tick env ds u = uploader_info Error_connect (u\<lparr>status_calls := Suc (status_calls u)\<rparr>) \<and>
     tick env ds' u = tick env ds u \<and>
     tsl_sent (tick env ds u) = tsl_sent u \<and>
     lbs_calls (tick env ds u) = lbs_calls u \<and>
     gnss_calls (tick env ds u) = gnss_calls u \<and>
     data (tick env ds u) = data u \<and>
     clock_reads (tick env ds u) = clock_reads u \<and>
     uploader_sleeps (tick env ds u) = uploader_sleeps u \<and>
     uploader_log (tick env ds u) = uploader_log u @ [Error_connect] \<and>
     steady_loop env u (ds # dss) = steady_loop env (sleep1 (tick env ds u)) dss"
  by (simp add: tick_def tick_body_not_ready uploader_info_def)

theorem C8_not_ready_tick_witness:
  "qth_isStatusOk env_offline (status_calls (uploader_at 5)) = Inr False \<and>
   tick env_offline ds_tick5 (uploader_at 5) =
     uploader_info Error_connect ((uploader_at 5)\<lparr>status_calls := 1\<rparr>) \<and>
   tick env_offline ds_tick6 (uploader_at 5) = tick env_offline ds_tick5 (uploader_at 5) \<and>
   tsl_sent (tick env_offline ds_tick5 (uploader_at 5)) = [] \<and>
   lbs_calls (tick env_offline ds_tick5 (uploader_at 5)) = 0 \<and>
   gnss_calls (tick env_offline ds_tick5 (uploader_at 5)) = 0 \<and>
   data (tick env_offline ds_tick5 (uploader_at 5)) = None \<and>
   uploader_log (tick env_offline ds_tick5 (uploader_at 5)) = [Error_connect]"
proof -
  have a: "qth_isStatusOk env_offline (status_calls (uploader_at 5)) = Inr False"
    by (simp add: env_offline_def)
  from C8_not_ready_tick [where env = env_offline and u = "uploader_at 5" and ds = ds_tick5
      and ds' = ds_tick6 and dss = "[]"] a
  have b: "tick env_offline ds_tick5 (uploader_at 5) =
      uploader_info Error_connect ((uploader_at 5)\<lparr>status_calls := Suc (status_calls (uploader_at 5))\<rparr>)"
    and c: "tick env_offline ds_tick6 (uploader_at 5) = tick env_offline ds_tick5 (uploader_at 5)"
    by simp_all
  show ?thesis
    unfolding c b using a
    by (simp add: uploader_info_def uploader_at_def SensorDataUploader_init_def)
qed

text \<open>
  Claim C9. An exception that leaves the body of a tick is printed by the handler of
  that tick, and the loop goes on with the sleep and the next iteration; whatever the
  client raises, the steady-state loop is still running after any number of iterations,
  each of which polled the status check once.
\<close>

theorem C9_tick_exceptions_caught:
  "(fst (tick_body env ds u) = Some e \<longrightarrow>
      tick env ds u = uploader_info (Print e) (snd (tick_body env ds u)) \<and>
      uploader_log (tick env ds u) = uploader_log (snd (tick_body env ds u)) @ [Print e] \<and>
      steady_loop env u (ds # dss) =
        steady_loop env (sleep1 (uploader_info (Print e) (snd (tick_body env ds u)))) dss) \<and>
   (\<exists>u'. steady_loop env u dss = Running u' \<and> status_calls u' = status_calls u + length dss)"
proof (intro conjI impI)
  assume "fst (tick_body env ds u) = Some e"
  then have t: "tick env ds u = uploader_info (Print e) (snd (tick_body env ds u))"
    by (cases "tick_body env ds u") (simp add: tick_def)
  then show "tick env ds u = uploader_info (Print e) (snd (tick_body env ds u))" .
  from t show "uploader_log (tick env ds u) = uploader_log (snd (tick_body env ds u)) @ [Print e]"
    by (simp add: uploader_info_def)
  from t show "steady_loop env u (ds # dss) =
        steady_loop env (sleep1 (uploader_info (Print e) (snd (tick_body env ds u)))) dss"
    by simp
next
  show "\<exists>u'. steady_loop env u dss = Running u' \<and> status_calls u' = status_calls u + length dss"
    by (rule steady_loop_polls)
qed

theorem C9_tick_exceptions_caught_witness:
  "fst (tick_body env_tsl_raises ds_tick5 (uploader_at 5)) = Some (Exception ''ECONNRESET'') \<and>
   tick env_tsl_raises ds_tick5 (uploader_at 5) =
     uploader_info (Print (Exception ''ECONNRESET''))
       (snd (tick_body env_tsl_raises ds_tick5 (uploader_at 5))) \<and>
   uploader_log (tick env_tsl_raises ds_tick5 (uploader_at 5)) = [Print (Exception ''ECONNRESET'')] \<and>
   (\<exists>u'. steady_loop env_tsl_raises (uploader_at 5) [ds_tick5, ds_tick6, ds_tick5] = Running u' \<and>
         status_calls u' = 3)"
proof -
  have a: "tick_body env_tsl_raises ds_tick5 (uploader_at 5) =
     (Some (Exception ''ECONNRESET''),
      (uploader_at 5)\<lparr>status_calls := Suc (status_calls (uploader_at 5)),
         clock_reads := Suc (clock_reads (uploader_at 5)),
         data := Some (assembled env_tsl_raises ds_tick5 (uploader_at 5)),
         tsl_sent := tsl_sent (uploader_at 5) @
           [(1, assembled env_tsl_raises ds_tick5 (uploader_at 5))]\<rparr>)"
    by (rule tick_body_send_raises)
      (simp_all add: env_tsl_raises_def env_online_def uploader_at_def SensorDataUploader_init_def)
  have f: "fst (tick_body env_tsl_raises ds_tick5 (uploader_at 5)) = Some (Exception ''ECONNRESET'')"
    by (simp add: a)
  from C9_tick_exceptions_caught [where env = env_tsl_raises and u = "uploader_at 5"
      and ds = ds_tick5 and e = "Exception ''ECONNRESET''" and dss = "[ds_tick5, ds_tick6, ds_tick5]"] f
  have t: "tick env_tsl_raises ds_tick5 (uploader_at 5) =
      uploader_info (Print (Exception ''ECONNRESET''))
        (snd (tick_body env_tsl_raises ds_tick5 (uploader_at 5)))"
    and l: "\<exists>u'. steady_loop env_tsl_raises (uploader_at 5) [ds_tick5, ds_tick6, ds_tick5] = Running u' \<and>
         status_calls u' = status_calls (uploader_at 5) + length [ds_tick5, ds_tick6, ds_tick5]"
    by blast+
  have s0: "status_calls (uploader_at 5) = 0" "uploader_log (uploader_at 5) = []"
    by (simp_all add: uploader_at_def SensorDataUploader_init_def)
  from l s0 have l': "\<exists>u'. steady_loop env_tsl_raises (uploader_at 5) [ds_tick5, ds_tick6, ds_tick5] = Running u' \<and>
         status_calls u' = 3"
    by simp
  have lg: "uploader_log (tick env_tsl_raises ds_tick5 (uploader_at 5)) = [Print (Exception ''ECONNRESET'')]"
    by (simp add: t) (simp add: a uploader_info_def s0)
  from f t lg l' show ?thesis by blast
qed

subsection \<open>The upload task: after the handshake, and the location reports of a tick\<close>

lemma report_lbs_mono: "lbs_calls u \<le> lbs_calls (snd (report_lbs env ts u))"
  using sendLbs_loop_mono [of u 10 env]
  by (cases "sendLbs_loop 10 env u")
    (auto simp: report_lbs_def sendLbs_def uploader_info_def split: sum.splits)

lemma report_gnss_mono: "gnss_calls u \<le> gnss_calls (snd (report_gnss env ts u))"
  using sendGnss_loop_mono [of u 10 env]
  by (cases "sendGnss_loop 10 env u")
    (auto simp: report_gnss_def sendGnss_def uploader_info_def split: sum.splits)

lemma report_locations_cases:
  "report_locations env ts u = report_lbs env ts u \<and> fst (report_lbs env ts u) \<noteq> None \<or>
   report_locations env ts u = report_gnss env ts (snd (report_lbs env ts u)) \<and>
     fst (report_lbs env ts u) = None"
  by (cases "report_lbs env ts u") (auto simp: report_locations_def split: option.splits)

lemma report_locations_mono:
  "lbs_calls u \<le> lbs_calls (snd (report_locations env ts u)) \<and>
   gnss_calls u \<le> gnss_calls (snd (report_locations env ts u))"
  using report_locations_cases [of env ts u] report_lbs_mono [of u env ts]
    report_lbs_frame [of env ts u]
    report_gnss_mono [of "snd (report_lbs env ts u)" env ts]
    report_gnss_frame [of env ts "snd (report_lbs env ts u)"]
  by auto





lemma tick_calls_mono:
  "lbs_calls u \<le> lbs_calls (tick env ds u) \<and> gnss_calls u \<le> gnss_calls (tick env ds u)"
proof (cases "qth_isStatusOk env (status_calls u)")
  case (Inl e)
  then show ?thesis by (simp add: tick_fields tick_body_status_raises)
next
  case (Inr ok)
  show ?thesis
  proof (cases ok)
    case False
    with Inr show ?thesis by (simp add: tick_fields tick_body_not_ready uploader_info_def)
  next
    case True
    with Inr have ok: "qth_isStatusOk env (status_calls u) = Inr True" by simp
    show ?thesis
    proof (cases "timestamp_of env u mod 5 = 0 \<or> data u \<noteq> None")
      case False
      with ok show ?thesis by (simp add: tick_fields tick_body_unbound)
    next
      case bound: True
      show ?thesis
      proof (cases "qth_sendTsl env (length (tsl_sent u))")
        case (Inl e)
        from tick_body_send_raises [OF ok bound Inl] show ?thesis by (simp add: tick_fields)
      next
        case (Inr result)
        let ?u4 = "uploader_info (Info_upload_result result)
          (u\<lparr>status_calls := Suc (status_calls u), clock_reads := Suc (clock_reads u),
             data := Some (assembled env ds u),
             tsl_sent := tsl_sent u @ [(1, assembled env ds u)]\<rparr>)"
        from report_locations_mono [of ?u4 env "timestamp_of env u"]
        show ?thesis
          by (simp add: tick_fields tick_body_sent [OF ok bound Inr]) (simp add: uploader_info_def)
      qed
    qed
  qed
qed

lemma steady_loop_state:
  "\<exists>u'. steady_loop env u dss = Running u' \<and> status_calls u' = status_calls u + length dss \<and>
        lbs_calls u \<le> lbs_calls u' \<and> gnss_calls u \<le> gnss_calls u'"
proof (induction dss arbitrary: u)
  case Nil
  show ?case by simp
next
  case (Cons ds dss)
  from Cons.IH [of "sleep1 (tick env ds u)"] obtain u' where
    "steady_loop env (sleep1 (tick env ds u)) dss = Running u'"
    "status_calls u' = status_calls (sleep1 (tick env ds u)) + length dss"
    "lbs_calls (sleep1 (tick env ds u)) \<le> lbs_calls u'"
    "gnss_calls (sleep1 (tick env ds u)) \<le> gnss_calls u'" by blast
  with tick_calls_mono [of u env ds] show ?case
    by (simp add: sleep1_def tick_fields tick_body_status_calls)
qed

lemma sendLbs_facts:
  "status_calls (snd (sendLbs env u)) = status_calls u \<and>
   gnss_calls (snd (sendLbs env u)) = gnss_calls u \<and>
   tsl_sent (snd (sendLbs env u)) = tsl_sent u \<and>
   lbs_calls u < lbs_calls (snd (sendLbs env u))"
  using sendLbs_loop_frame [of 10 env u] sendLbs_loop_calls [of 10 u env]
  by (simp add: sendLbs_def)

lemma sendGnss_facts:
  "status_calls (snd (sendGnss env u)) = status_calls u \<and>
   lbs_calls (snd (sendGnss env u)) = lbs_calls u \<and>
   tsl_sent (snd (sendGnss env u)) = tsl_sent u \<and>
   gnss_calls u < gnss_calls (snd (sendGnss env u))"
  using sendGnss_loop_frame [of 10 env u] sendGnss_loop_calls [of 10 u env]
  by (simp add: sendGnss_def)

text \<open>
  Lines 132 to 172 from a state \<open>u1\<close>: the two first location reports, then the loop.
  Whatever the client does, the outcome is the loop still running after one status poll
  for every snapshot, or a crash in one of the two first reports, before any poll or send.
\<close>

lemma after_handshake:
  "(case (case sendLbs env u1 of
            (Inl e, u2) \<Rightarrow> Crashed e u2
          | (Inr r1, u2) \<Rightarrow>
              (case sendGnss env u2 of
                 (Inl e, u3) \<Rightarrow> Crashed e u3
               | (Inr r2, u3) \<Rightarrow> steady_loop env u3 dss)) of
      Running u' \<Rightarrow>
        status_calls u' = status_calls u1 + length dss \<and>
        lbs_calls u1 < lbs_calls u' \<and> gnss_calls u1 < gnss_calls u'
    | Crashed e u' \<Rightarrow>
        status_calls u' = status_calls u1 \<and> tsl_sent u' = tsl_sent u1 \<and>
        lbs_calls u1 < lbs_calls u'
    | Returned u' \<Rightarrow> False)"
proof (cases "sendLbs env u1")
  case l: (Pair rl u2)
  from sendLbs_facts [of env u1] l have f2: "status_calls u2 = status_calls u1"
    "gnss_calls u2 = gnss_calls u1" "tsl_sent u2 = tsl_sent u1" "lbs_calls u1 < lbs_calls u2"
    by simp_all
  show ?thesis
  proof (cases rl)
    case (Inl e)
    with l f2 show ?thesis by simp
  next
    case (Inr r1)
    show ?thesis
    proof (cases "sendGnss env u2")
      case g: (Pair rg u3)
      from sendGnss_facts [of env u2] g have f3: "status_calls u3 = status_calls u2"
        "lbs_calls u3 = lbs_calls u2" "tsl_sent u3 = tsl_sent u2" "gnss_calls u2 < gnss_calls u3"
        by simp_all
      show ?thesis
      proof (cases rg)
        case (Inl e)
        with l Inr g f2 f3 show ?thesis by simp
      next
        case r2: (Inr r2)
        from steady_loop_state [of env u3 dss] obtain u' where
          "steady_loop env u3 dss = Running u'" "status_calls u' = status_calls u3 + length dss"
          "lbs_calls u3 \<le> lbs_calls u'" "gnss_calls u3 \<le> gnss_calls u'" by blast
        with l Inr g r2 f2 f3 show ?thesis by simp
      qed
    qed
  qed
qed

text \<open>
  Claim C3. The handshake polls the status check at most 30 times, sleeping after each
  failed poll. With \<open>k\<close> failed polls before the first success (\<open>k < 30\<close>, so also false
  29 times and true on the 30th) the loop leaves by \<^verbatim>\<open>break\<close> after \<open>k + 1\<close> polls and
  the task goes on with lines 132 to 172: the two first location reports, then the
  steady-state loop. It never returns from there: it is still in the loop after one more
  status poll for every iteration, both first location reports made, or it died in one
  of the two first location reports from an exception of the client; with a client whose
  location calls return it is in the loop. With all 30 polls failed the task logs the
  error and returns, without a single \<^verbatim>\<open>sendTsl\<close> call or location call.
\<close>

theorem C3_handshake:
  "(k \<le> 30 \<and> (\<forall>j<k. qth_isStatusOk env (status_calls u + j) = Inr False) \<and>
    (k < 30 \<longrightarrow> qth_isStatusOk env (status_calls u + k) = Inr True) \<longrightarrow>
      wait_status 30 env u =
        (Inr (k < 30), u\<lparr>status_calls := status_calls u + (if k < 30 then k + 1 else 30),
                          uploader_sleeps := uploader_sleeps u + k\<rparr>) \<and>
      (qth_start env = None \<and> k = 30 \<longrightarrow>
         (\<exists>u'. uploader_call env u dss = Returned u' \<and>
               tsl_sent u' = tsl_sent u \<and> lbs_calls u' = lbs_calls u \<and>
               gnss_calls u' = gnss_calls u \<and>
               status_calls u' = status_calls u + 30 \<and>
               uploader_sleeps u' = uploader_sleeps u + 30 \<and>
               uploader_log u' = uploader_log u @ [Error_can_not_connect_exit])) \<and>
      (qth_start env = None \<and> k < 30 \<longrightarrow>
         uploader_call env u dss =
           (case sendLbs env (u\<lparr>status_calls := status_calls u + k + 1,
                                 uploader_sleeps := uploader_sleeps u + k\<rparr>) of
              (Inl e, u2) \<Rightarrow> Crashed e u2
            | (Inr r1, u2) \<Rightarrow>
                (case sendGnss env u2 of
                   (Inl e, u3) \<Rightarrow> Crashed e u3
                 | (Inr r2, u3) \<Rightarrow> steady_loop env u3 dss)) \<and>
         (case uploader_call env u dss of
            Running u' \<Rightarrow>
              status_calls u' = status_calls u + k + 1 + length dss \<and>
              lbs_calls u < lbs_calls u' \<and> gnss_calls u < gnss_calls u'
          | Crashed e u' \<Rightarrow>
              status_calls u' = status_calls u + k + 1 \<and> tsl_sent u' = tsl_sent u \<and>
              lbs_calls u < lbs_calls u'
          | Returned u' \<Rightarrow> False) \<and>
         ((\<forall>n. \<not> isl (qth_sendLbs env n)) \<and> (\<forall>n. \<not> isl (qth_sendGnss env n)) \<longrightarrow>
            (\<exists>u'. uploader_call env u dss = Running u' \<and>
                  status_calls u' = status_calls u + k + 1 + length dss \<and>
                  lbs_calls u < lbs_calls u' \<and> gnss_calls u < gnss_calls u')))) \<and>
   status_calls (snd (wait_status 30 env u)) \<le> status_calls u + 30"
proof (intro conjI impI)
  show "status_calls (snd (wait_status 30 env u)) \<le> status_calls u + 30"
    using wait_status_bound [of 30 env u] by simp
next
  assume a: "k \<le> 30 \<and> (\<forall>j<k. qth_isStatusOk env (status_calls u + j) = Inr False) \<and>
    (k < 30 \<longrightarrow> qth_isStatusOk env (status_calls u + k) = Inr True)"
  then show w: "wait_status 30 env u =
        (Inr (k < 30), u\<lparr>status_calls := status_calls u + (if k < 30 then k + 1 else 30),
                          uploader_sleeps := uploader_sleeps u + k\<rparr>)"
    using wait_status_outcome [of k env u] by blast
  {
    assume b: "qth_start env = None \<and> k = 30"
    with w show "\<exists>u'. uploader_call env u dss = Returned u' \<and>
               tsl_sent u' = tsl_sent u \<and> lbs_calls u' = lbs_calls u \<and>
               gnss_calls u' = gnss_calls u \<and>
               status_calls u' = status_calls u + 30 \<and>
               uploader_sleeps u' = uploader_sleeps u + 30 \<and>
               uploader_log u' = uploader_log u @ [Error_can_not_connect_exit]"
      by (simp add: uploader_call_def uploader_info_def)
  }
  {
    assume b: "qth_start env = None \<and> k < 30"
    let ?u1 = "u\<lparr>status_calls := status_calls u + k + 1,
                 uploader_sleeps := uploader_sleeps u + k\<rparr>"
    let ?rest = "case sendLbs env ?u1 of
              (Inl e, u2) \<Rightarrow> Crashed e u2
            | (Inr r1, u2) \<Rightarrow>
                (case sendGnss env u2 of
                   (Inl e, u3) \<Rightarrow> Crashed e u3
                 | (Inr r2, u3) \<Rightarrow> steady_loop env u3 dss)"
    from b w show eq: "uploader_call env u dss = ?rest"
      by (simp add: uploader_call_def)
    from after_handshake [where env = env and dss = dss and ?u1.0 = "?u1"]
    show c: "case uploader_call env u dss of
            Running u' \<Rightarrow>
              status_calls u' = status_calls u + k + 1 + length dss \<and>
              lbs_calls u < lbs_calls u' \<and> gnss_calls u < gnss_calls u'
          | Crashed e u' \<Rightarrow>
              status_calls u' = status_calls u + k + 1 \<and> tsl_sent u' = tsl_sent u \<and>
              lbs_calls u < lbs_calls u'
          | Returned u' \<Rightarrow> False"
      unfolding eq by (simp cong: task_result.case_cong)
    {
      assume n: "(\<forall>n. \<not> isl (qth_sendLbs env n)) \<and> (\<forall>n. \<not> isl (qth_sendGnss env n))"
      from n sendLbs_never_raises [of env ?u1] obtain u2 where
        l: "sendLbs env ?u1 = (Inr PyNone, u2)" by blast
      from n sendGnss_never_raises [of env u2] obtain u3 where
        g: "sendGnss env u2 = (Inr PyNone, u3)" by blast
      from steady_loop_running [of env u3 dss] obtain u' where
        "steady_loop env u3 dss = Running u'" by blast
      with eq l g have r: "uploader_call env u dss = Running u'" by simp
      with c show "\<exists>u'. uploader_call env u dss = Running u' \<and>
                  status_calls u' = status_calls u + k + 1 + length dss \<and>
                  lbs_calls u < lbs_calls u' \<and> gnss_calls u < gnss_calls u'"
        by simp
    }
  }
qed

theorem C3_handshake_witness:
  "qth_isStatusOk env_slow_start 28 = Inr False \<and>
   qth_isStatusOk env_slow_start 29 = Inr True \<and>
   qth_isStatusOk env_offline 29 = Inr False \<and>
   fst (wait_status 30 env_slow_start SensorDataUploader_init) = Inr True \<and>
   status_calls (snd (wait_status 30 env_slow_start SensorDataUploader_init)) = 30 \<and>
   uploader_sleeps (snd (wait_status 30 env_slow_start SensorDataUploader_init)) = 29 \<and>
   (\<exists>u'. uploader_call env_slow_start SensorDataUploader_init [ds_tick5] = Running u' \<and>
         status_calls u' = 31 \<and> 0 < lbs_calls u' \<and> 0 < gnss_calls u') \<and>
   (case uploader_call env_slow_start SensorDataUploader_init [ds_tick5] of
      Running u' \<Rightarrow> (status_calls u', lbs_calls u', gnss_calls u', length (tsl_sent u'))
    | Returned u' \<Rightarrow> (0, 0, 0, 0)
    | Crashed e u' \<Rightarrow> (0, 0, 0, 0)) = (31, 20, 13, 1) \<and>
   (\<exists>u'. uploader_call env_offline SensorDataUploader_init [ds_tick5] = Returned u' \<and>
         tsl_sent u' = [] \<and> status_calls u' = 30 \<and> uploader_sleeps u' = 30 \<and>
         uploader_log u' = [Error_can_not_connect_exit])"
proof -
  have h: "29 \<le> (30::nat) \<and>
      (\<forall>j<29. qth_isStatusOk env_slow_start (status_calls SensorDataUploader_init + j) = Inr False) \<and>
      ((29::nat) < 30 \<longrightarrow>
         qth_isStatusOk env_slow_start (status_calls SensorDataUploader_init + 29) = Inr True)"
    by (simp add: env_slow_start_def SensorDataUploader_init_def)
  have s: "qth_start env_slow_start = None \<and> (29::nat) < 30"
    by (simp add: env_slow_start_def env_online_def)
  have n: "(\<forall>n. \<not> isl (qth_sendLbs env_slow_start n)) \<and>
      (\<forall>n. \<not> isl (qth_sendGnss env_slow_start n))"
    by (simp add: env_slow_start_def env_online_def)
  from C3_handshake [where k = 29 and env = env_slow_start and u = SensorDataUploader_init
      and dss = "[ds_tick5]"] h s n
  have w: "wait_status 30 env_slow_start SensorDataUploader_init =
        (Inr ((29::nat) < 30),
         SensorDataUploader_init\<lparr>status_calls :=
             status_calls SensorDataUploader_init + (if (29::nat) < 30 then 29 + 1 else 30),
           uploader_sleeps := uploader_sleeps SensorDataUploader_init + 29\<rparr>)"
    and r: "\<exists>u'. uploader_call env_slow_start SensorDataUploader_init [ds_tick5] = Running u' \<and>
        status_calls u' = status_calls SensorDataUploader_init + 29 + 1 + length [ds_tick5] \<and>
        lbs_calls SensorDataUploader_init < lbs_calls u' \<and>
        gnss_calls SensorDataUploader_init < gnss_calls u'"
    by blast+
  have h': "30 \<le> (30::nat) \<and>
      (\<forall>j<30. qth_isStatusOk env_offline (status_calls SensorDataUploader_init + j) = Inr False) \<and>
      ((30::nat) < 30 \<longrightarrow>
         qth_isStatusOk env_offline (status_calls SensorDataUploader_init + 30) = Inr True)"
    by (simp add: env_offline_def)
  have s': "qth_start env_offline = None \<and> (30::nat) = 30"
    by (simp add: env_offline_def env_online_def)
  from C3_handshake [where k = 30 and env = env_offline and u = SensorDataUploader_init
      and dss = "[ds_tick5]"] h' s'
  have o: "\<exists>u'. uploader_call env_offline SensorDataUploader_init [ds_tick5] = Returned u' \<and>
        tsl_sent u' = tsl_sent SensorDataUploader_init \<and>
        lbs_calls u' = lbs_calls SensorDataUploader_init \<and>
        gnss_calls u' = gnss_calls SensorDataUploader_init \<and>
        status_calls u' = status_calls SensorDataUploader_init + 30 \<and>
        uploader_sleeps u' = uploader_sleeps SensorDataUploader_init + 30 \<and>
        uploader_log u' = uploader_log SensorDataUploader_init @ [Error_can_not_connect_exit]"
    by blast
  have i: "status_calls SensorDataUploader_init = 0" "lbs_calls SensorDataUploader_init = 0"
    "gnss_calls SensorDataUploader_init = 0" "tsl_sent SensorDataUploader_init = []"
    "uploader_sleeps SensorDataUploader_init = 0" "uploader_log SensorDataUploader_init = []"
    by (simp_all add: SensorDataUploader_init_def)
  have e: "qth_isStatusOk env_slow_start 28 = Inr False"
    "qth_isStatusOk env_slow_start 29 = Inr True"
    "qth_isStatusOk env_offline 29 = Inr False"
    by (simp_all add: env_slow_start_def env_offline_def)
  have c: "(case uploader_call env_slow_start SensorDataUploader_init [ds_tick5] of
      Running u' \<Rightarrow> (status_calls u', lbs_calls u', gnss_calls u', length (tsl_sent u'))
    | Returned u' \<Rightarrow> (0, 0, 0, 0)
    | Crashed e u' \<Rightarrow> (0, 0, 0, 0)) = (31, 20, 13, 1)"
    by (simp add: uploader_call_def sendLbs_def sendGnss_def env_slow_start_def uploader_eval
        eval_nat_numeral)
  from r have r': "\<exists>u'. uploader_call env_slow_start SensorDataUploader_init [ds_tick5] = Running u' \<and>
         status_calls u' = 31 \<and> 0 < lbs_calls u' \<and> 0 < gnss_calls u'"
    by (simp add: i)
  from o have o': "\<exists>u'. uploader_call env_offline SensorDataUploader_init [ds_tick5] = Returned u' \<and>
         tsl_sent u' = [] \<and> status_calls u' = 30 \<and> uploader_sleeps u' = 30 \<and>
         uploader_log u' = [Error_can_not_connect_exit]"
    by (simp add: i) blast
  from w have w': "fst (wait_status 30 env_slow_start SensorDataUploader_init) = Inr True"
    "status_calls (snd (wait_status 30 env_slow_start SensorDataUploader_init)) = 30"
    "uploader_sleeps (snd (wait_status 30 env_slow_start SensorDataUploader_init)) = 29"
    by (simp_all add: i)
  from e w' r' c o' show ?thesis by blast
qed






end
